theory Spec2Isabelle
  imports Complex_Main "HOL-Library.Word" "HOL-Library.AList"
begin

section \<open>EnhancedTimerManager: data model\<close>

text \<open>
  A shallow embedding of the Unreal Engine plugin \<^verbatim>\<open>EnhancedTimerManager\<close>:
  \<^verbatim>\<open>FEnhancedTimerData\<close> and \<^verbatim>\<open>UEnhancedTimerManagerSubsystem\<close>
  (EnhancedTimerManagerSubsystem.h/.cpp) and \<^verbatim>\<open>FEnhancedTimerHandle\<close>
  (EnhancedTimerHandle.h/.cpp).

  Modelling conventions.
  \<^item> \<^verbatim>\<open>uint64\<close> is \<open>64 word\<close>; \<open>+\<close> wraps modulo \<open>2 ^ 64\<close>.
  \<^item> A \<^verbatim>\<open>float\<close> is a real number (the finite binary32 numbers; infinities and NaN are
    outside the model). Every float addition, subtraction and multiplication of the source
    is the exact operation followed by a rounding \<open>rnd :: real \<Rightarrow> real\<close>, which is a
    parameter of the model: \<open>Binary32Round\<close> below is the rounding of the platform
    (to nearest, ties to even, 24 significant bits), \<open>\<lambda>x. x\<close> is exact arithmetic, and a
    theorem that does not restrict \<open>rnd\<close> holds for every rounding. Comparison, negation,
    \<^verbatim>\<open>FMath::Max\<close> and the literals \<^verbatim>\<open>0.f\<close> and \<^verbatim>\<open>-1.f\<close> are exact.
  \<^item> \<^verbatim>\<open>TMap<uint64, FEnhancedTimerData>\<close> is an association list in iteration order;
    \<^verbatim>\<open>Add\<close> is \<open>AList.update\<close>, \<^verbatim>\<open>Remove\<close> is \<open>AList.delete\<close>, \<^verbatim>\<open>Find\<close> is \<open>map_of\<close>, and a
    write through a pointer returned by \<^verbatim>\<open>Find\<close> is \<open>AList.map_entry\<close>. The keys of a
    \<^verbatim>\<open>TMap\<close> are unique; in the model this is the invariant \<open>distinct (map fst (Timers s))\<close>.
  \<^item> A delegate is a value of an abstract type \<open>'cb\<close>, \<open>None\<close> when it is unbound. Executing
    a delegate runs arbitrary game code, which changes the rest of the game and may call
    back into the subsystem, so its effect is a parameter \<open>invoke\<close> of the tick: a function
    from the delegate and the state to the state. The state is the subsystem object
    together with the rest of the game: the rest of the game is the extension part
    \<open>Subsystem.more\<close> of the state record, of an arbitrary type \<open>'g\<close>, which no function of
    the subsystem reads or writes and only \<open>invoke\<close> can change.
  \<^item> A weak object pointer is an object identity (\<open>nat\<close>), \<open>None\<close> for the null pointer;
    which objects are alive is given by the environment (a partial map).
  \<^item> The public entry points are modelled on the game thread, where they run their body
    (off the game thread they only re-post themselves to the game thread).
  \<^item> The scratch buffers \<^verbatim>\<open>ReusableSnapshot\<close> and \<^verbatim>\<open>ReusableToFire\<close> are local values of
    the tick; the development-build statistics are left out.
\<close>

type_synonym uint64 = "64 word"

section \<open>Float arithmetic\<close>

text \<open>A rounding maps the exact result of an arithmetic operation to the \<^verbatim>\<open>float\<close> the
  operation returns.\<close>

type_synonym rounding = "real \<Rightarrow> real"

text \<open>The rounding of IEEE 754 binary32, to nearest with ties to even. \<open>Log2Floor n\<close> is the
  position of the leading bit of \<open>n\<close>; \<open>Binary32Exponent a\<close> is the exponent \<open>e\<close> of a
  positive \<open>a\<close>, with \<open>2 ^ e \<le> a < 2 ^ (e + 1)\<close>, and \<open>- 126\<close> for the subnormal numbers; the
  floats with that exponent are the multiples of \<open>2 ^ (e - 23)\<close>. Overflow to infinity is
  not modelled (the exponent is not bounded above).\<close>

fun Log2Floor :: "nat \<Rightarrow> nat" where
  "Log2Floor n = (if n < 2 then 0 else Suc (Log2Floor (n div 2)))"

declare Log2Floor.simps [simp del]

definition Binary32Exponent :: "real \<Rightarrow> int" where
  "Binary32Exponent a =
     (if 1 \<le> a then int (Log2Floor (nat \<lfloor>a\<rfloor>))
      else max (- 126) (- int (Suc (Log2Floor (nat \<lceil>1 / a\<rceil> - 1)))))"

definition RoundHalfEven :: "real \<Rightarrow> int" where
  "RoundHalfEven q =
     (let n = \<lfloor>q\<rfloor>; r = q - of_int n
      in if r < 1 / 2 then n else if 1 / 2 < r then n + 1 else if even n then n else n + 1)"

definition Binary32Round :: rounding where
  "Binary32Round x =
     (if x = 0 then 0
      else let a = \<bar>x\<bar>;
               e = Binary32Exponent a
           in if 23 \<le> e
              then sgn x * of_int (RoundHalfEven (a / 2 ^ nat (e - 23))) * 2 ^ nat (e - 23)
              else sgn x * of_int (RoundHalfEven (a * 2 ^ nat (23 - e))) / 2 ^ nat (23 - e))"

text \<open>\<^verbatim>\<open>EEnhancedTimerTimeDilationMode\<close> (EnhancedTimerManagerTypes.h).\<close>

datatype EEnhancedTimerTimeDilationMode =
  IgnoreTimeDilation | GlobalTimeDilation | ActorTimeDilation

text \<open>\<^verbatim>\<open>FEnhancedTimerData::ETimerPhase\<close>; the constructors carry the enum's name because
  \<open>InitialDelay\<close> is also a field of the record.\<close>

datatype ETimerPhase = ETimerPhase_InitialDelay | ETimerPhase_Running

text \<open>\<^verbatim>\<open>FEnhancedTimerData\<close>. The field \<^verbatim>\<open>Id\<close> is called \<open>TimerId\<close> (\<open>Id\<close> is the identity
  relation of HOL).\<close>

record 'cb FEnhancedTimerData =
  TimerId :: uint64
  Delegate :: "'cb option"
  DynamicDelegate :: "'cb option"
  bUseDynamic :: bool
  bLoop :: bool
  bPaused :: bool
  bAffectedByGamePause :: bool
  bNextTick :: bool
  Duration :: real
  PhaseElapsed :: real
  InitialDelay :: real
  Phase :: ETimerPhase
  DilationMode :: EEnhancedTimerTimeDilationMode
  DilationActor :: "nat option"

text \<open>The part of \<^verbatim>\<open>UWorld\<close> the subsystem reads: \<^verbatim>\<open>UGameplayStatics::IsGamePaused\<close> and
  \<^verbatim>\<open>UGameplayStatics::GetGlobalTimeDilation\<close>.\<close>

record UWorld =
  GamePaused :: bool
  GlobalDilation :: real

text \<open>The live actors and their \<^verbatim>\<open>CustomTimeDilation\<close>; \<open>None\<close> for a destroyed actor.\<close>

type_synonym actors = "nat \<Rightarrow> real option"

text \<open>The two tolerances are macros of the engine (\<^verbatim>\<open>Math/UnrealMathUtility.h\<close>), not of
  this plugin: \<^verbatim>\<open>UE_SMALL_NUMBER\<close> is \<^verbatim>\<open>1.e-8f\<close> and \<^verbatim>\<open>KINDA_SMALL_NUMBER\<close> is \<^verbatim>\<open>1.e-4f\<close>, that
  is, the binary32 numbers nearest to \<open>1 / 10 ^ 8\<close> and to \<open>1 / 10 ^ 4\<close>. The specification
  calls both a small positive epsilon; the general theorems below use them by name, the
  examples use the values.\<close>

definition UE_SMALL_NUMBER :: real where
  "UE_SMALL_NUMBER = 11258999 / 2 ^ 50"

definition KINDA_SMALL_NUMBER :: real where
  "KINDA_SMALL_NUMBER = 13743895 / 2 ^ 37"

text \<open>\<^verbatim>\<open>TWeakObjectPtr<AActor>::Get()\<close> followed by the read of \<^verbatim>\<open>CustomTimeDilation\<close>:
  \<open>None\<close> when the pointer is null or the actor is gone.\<close>

definition DilationActor_Get :: "actors \<Rightarrow> 'cb FEnhancedTimerData \<Rightarrow> real option" where
  "DilationActor_Get live T = (case DilationActor T of None \<Rightarrow> None | Some A \<Rightarrow> live A)"

text \<open>\<^verbatim>\<open>FEnhancedTimerData::GetEffectiveDelta(WorldDelta, World)\<close>.\<close>

definition GetEffectiveDelta ::
  "rounding \<Rightarrow> actors \<Rightarrow> 'cb FEnhancedTimerData \<Rightarrow> real \<Rightarrow> UWorld option \<Rightarrow> real" where
  "GetEffectiveDelta rnd live T WorldDelta World =
     (case DilationMode T of
        GlobalTimeDilation \<Rightarrow>
          (case World of Some W \<Rightarrow> rnd (WorldDelta * GlobalDilation W) | None \<Rightarrow> WorldDelta)
      | ActorTimeDilation \<Rightarrow>
          (case DilationActor_Get live T of
             Some CustomTimeDilation \<Rightarrow>
               (let Scale = max UE_SMALL_NUMBER CustomTimeDilation in rnd (WorldDelta * Scale))
           | None \<Rightarrow> WorldDelta)
      | IgnoreTimeDilation \<Rightarrow> WorldDelta)"

text \<open>\<^verbatim>\<open>FEnhancedTimerData::Advance\<close>: \<^verbatim>\<open>PhaseElapsed += EffDelta\<close>, a float addition.\<close>

definition Advance ::
  "rounding \<Rightarrow> real \<Rightarrow> 'cb FEnhancedTimerData \<Rightarrow> 'cb FEnhancedTimerData" where
  "Advance rnd EffDelta T = T\<lparr>PhaseElapsed := rnd (PhaseElapsed T + EffDelta)\<rparr>"

text \<open>\<^verbatim>\<open>FEnhancedTimerData::TryTransitFromDelay\<close>: the returned flag and the record as
  the call leaves it.\<close>

definition TryTransitFromDelay ::
  "rounding \<Rightarrow> 'cb FEnhancedTimerData \<Rightarrow> bool \<times> 'cb FEnhancedTimerData" where
  "TryTransitFromDelay rnd T =
     (if Phase T = ETimerPhase_InitialDelay \<and>
         rnd (PhaseElapsed T + KINDA_SMALL_NUMBER) \<ge> InitialDelay T
      then (True, T\<lparr>Phase := ETimerPhase_Running, PhaseElapsed := 0\<rparr>)
      else (False, T))"

text \<open>\<^verbatim>\<open>FEnhancedTimerData::ShouldFire\<close>.\<close>

definition ShouldFire :: "rounding \<Rightarrow> 'cb FEnhancedTimerData \<Rightarrow> bool" where
  "ShouldFire rnd T \<longleftrightarrow>
     Phase T = ETimerPhase_Running \<and> rnd (PhaseElapsed T + KINDA_SMALL_NUMBER) \<ge> Duration T"

section \<open>The subsystem\<close>

text \<open>The members of \<^verbatim>\<open>UEnhancedTimerManagerSubsystem\<close>.\<close>

record 'cb Subsystem =
  Timers :: "(uint64 \<times> 'cb FEnhancedTimerData) list"
  FiredThisTick :: "uint64 list"
  ToRemove :: "uint64 list"
  ToUnpause :: "uint64 list"
  NextId :: uint64

text \<open>The state the functions of the subsystem and the delegates act on: the members of
  the subsystem and, in the extension part of the record, the rest of the game.\<close>

type_synonym ('cb, 'g) GameState = "('cb, 'g) Subsystem_scheme"

text \<open>\<^verbatim>\<open>FEnhancedTimerHandle\<close>: the id and the weak pointer to the owning subsystem.\<close>

record FEnhancedTimerHandle =
  HandleId :: uint64
  Owner :: "nat option"

text \<open>The default-constructed handle (\<^verbatim>\<open>Id = 0\<close>, null owner).\<close>

definition InvalidHandle :: FEnhancedTimerHandle where
  "InvalidHandle = \<lparr>HandleId = 0, Owner = None\<rparr>"

text \<open>A freshly constructed subsystem object (the member initialisers of the class).\<close>

definition NewSubsystem :: "'cb Subsystem" where
  "NewSubsystem = \<lparr>Timers = [], FiredThisTick = [], ToRemove = [], ToUnpause = [], NextId = 1\<rparr>"

text \<open>\<^verbatim>\<open>Initialize\<close> only reserves capacity.\<close>

definition Initialize :: "('cb, 'g) GameState \<Rightarrow> ('cb, 'g) GameState" where
  "Initialize s = s"

text \<open>\<^verbatim>\<open>Deinitialize\<close>.\<close>

definition Deinitialize :: "('cb, 'g) GameState \<Rightarrow> ('cb, 'g) GameState" where
  "Deinitialize s =
     s\<lparr>Timers := [], FiredThisTick := [], ToRemove := [], ToUnpause := [], NextId := 1\<rparr>"

text \<open>\<^verbatim>\<open>AllocateId\<close>: the id handed out and the subsystem with the counter advanced.\<close>

definition AllocateId :: "('cb, 'g) GameState \<Rightarrow> uint64 \<times> ('cb, 'g) GameState" where
  "AllocateId s =
     (let Out = NextId s;
          s1 = s\<lparr>NextId := NextId s + 1\<rparr>;
          s2 = (if NextId s1 = 0 then s1\<lparr>NextId := 1\<rparr> else s1)
      in (Out, s2))"

text \<open>\<^verbatim>\<open>GetData\<close>: \<open>Some\<close> copy when the id is found (the C++ returns \<^verbatim>\<open>true\<close> and fills
  \<^verbatim>\<open>Out\<close>), \<open>None\<close> otherwise.\<close>

definition GetData :: "uint64 \<Rightarrow> ('cb, 'g) GameState \<Rightarrow> 'cb FEnhancedTimerData option" where
  "GetData I s = map_of (Timers s) I"

text \<open>\<^verbatim>\<open>FindMutable\<close>: the record the returned pointer refers to, \<open>None\<close> for \<^verbatim>\<open>nullptr\<close>.\<close>

definition FindMutable ::
  "uint64 \<Rightarrow> ('cb, 'g) GameState \<Rightarrow> 'cb FEnhancedTimerData option" where
  "FindMutable I s = map_of (Timers s) I"

section \<open>Creating timers\<close>

text \<open>\<^verbatim>\<open>FMath::FRandRange(InMin, InMax)\<close> is \<^verbatim>\<open>InMin + (InMax - InMin) * FRand()\<close> (a function
  of the engine, \<^verbatim>\<open>Math/UnrealMathUtility.h\<close>), three float operations; the sample
  \<^verbatim>\<open>FRand()\<close>, a float between 0 and 1, is an input of the model.\<close>

definition FRandRange :: "rounding \<Rightarrow> real \<Rightarrow> real \<Rightarrow> real \<Rightarrow> real" where
  "FRandRange rnd InMin InMax FRand = rnd (InMin + rnd (rnd (InMax - InMin) * FRand))"

text \<open>A default-constructed \<^verbatim>\<open>FEnhancedTimerData\<close> (the member initialisers).\<close>

definition DefaultData :: "'cb FEnhancedTimerData" where
  "DefaultData =
     \<lparr>TimerId = 0, Delegate = None, DynamicDelegate = None, bUseDynamic = False,
      bLoop = False, bPaused = False, bAffectedByGamePause = False, bNextTick = False,
      Duration = 0, PhaseElapsed = 0, InitialDelay = 0, Phase = ETimerPhase_Running,
      DilationMode = IgnoreTimeDilation, DilationActor = None\<rparr>"

text \<open>\<^verbatim>\<open>SetEnhancedTimer\<close> on the game thread. \<open>self\<close> is the subsystem object (\<^verbatim>\<open>this\<close>),
  \<open>FRand\<close> the random sample the call would draw. Returns the handle and the new state.
  \<^verbatim>\<open>DelayToStartCountingDown + Bigger\<close> is a float addition.\<close>

definition SetEnhancedTimer ::
  "rounding \<Rightarrow> nat \<Rightarrow> 'cb option \<Rightarrow> real \<Rightarrow> EEnhancedTimerTimeDilationMode \<Rightarrow> nat option \<Rightarrow>
   bool \<Rightarrow> bool \<Rightarrow> real \<Rightarrow> real \<Rightarrow> real \<Rightarrow> ('cb, 'g) GameState \<Rightarrow>
   FEnhancedTimerHandle \<times> ('cb, 'g) GameState" where
  "SetEnhancedTimer rnd self InDelegate InDuration InDilationMode InDilationActor
     InAffectedByGamePause InLoop DelayToStartCountingDown DelayToStartCountingDownVariation
     FRand s =
     (let (NewId, s1) = AllocateId s;
          Data0 = DefaultData
            \<lparr>TimerId := NewId, Delegate := InDelegate, bUseDynamic := False,
             Duration := max 0 InDuration, PhaseElapsed := 0, InitialDelay := 0,
             Phase := ETimerPhase_Running, bLoop := InLoop, bPaused := False,
             bAffectedByGamePause := InAffectedByGamePause, DilationMode := InDilationMode,
             DilationActor := InDilationActor, bNextTick := False\<rparr>;
          Data =
            (if DelayToStartCountingDown > 0 \<or> DelayToStartCountingDownVariation > 0 then
               let Rand = FRandRange rnd (- DelayToStartCountingDownVariation)
                            DelayToStartCountingDownVariation FRand;
                   Bigger = max 0 Rand;
                   Data1 = Data0\<lparr>InitialDelay :=
                                   max 0 (rnd (DelayToStartCountingDown + Bigger))\<rparr>
               in if InitialDelay Data1 > 0
                  then Data1\<lparr>Phase := ETimerPhase_InitialDelay, PhaseElapsed := 0\<rparr>
                  else Data1
             else Data0);
          s2 = s1\<lparr>Timers := AList.update (TimerId Data) Data (Timers s1)\<rparr>
      in (\<lparr>HandleId = TimerId Data, Owner = Some self\<rparr>, s2))"

text \<open>\<^verbatim>\<open>SetEnhancedTimerExecutedInNextTick\<close> on the game thread.\<close>

definition SetEnhancedTimerExecutedInNextTick ::
  "nat \<Rightarrow> 'cb option \<Rightarrow> ('cb, 'g) GameState \<Rightarrow> FEnhancedTimerHandle \<times> ('cb, 'g) GameState" where
  "SetEnhancedTimerExecutedInNextTick self InDelegate s =
     (let (NewId, s1) = AllocateId s;
          Data = DefaultData
            \<lparr>TimerId := NewId, Delegate := InDelegate, bUseDynamic := False,
             Duration := 0, PhaseElapsed := 0, InitialDelay := 0,
             Phase := ETimerPhase_Running, bLoop := False, bPaused := False,
             bAffectedByGamePause := True, DilationMode := IgnoreTimeDilation,
             bNextTick := True\<rparr>;
          s2 = s1\<lparr>Timers := AList.update (TimerId Data) Data (Timers s1)\<rparr>
      in (\<lparr>HandleId = TimerId Data, Owner = Some self\<rparr>, s2))"

text \<open>\<^verbatim>\<open>SetEnhancedTimer_BP\<close> on the game thread (the reflection-bound creation).\<close>

definition SetEnhancedTimer_BP ::
  "rounding \<Rightarrow> nat \<Rightarrow> 'cb option \<Rightarrow> real \<Rightarrow> EEnhancedTimerTimeDilationMode \<Rightarrow> nat option \<Rightarrow>
   bool \<Rightarrow> bool \<Rightarrow> real \<Rightarrow> real \<Rightarrow> real \<Rightarrow> ('cb, 'g) GameState \<Rightarrow>
   FEnhancedTimerHandle \<times> ('cb, 'g) GameState" where
  "SetEnhancedTimer_BP rnd self Event InDuration InDilationMode InDilationActor
     InAffectedByGamePause InLoop DelayToStartCountingDown DelayToStartCountingDownVariation
     FRand s =
     (let (NewId, s1) = AllocateId s;
          Data0 = DefaultData
            \<lparr>TimerId := NewId, DynamicDelegate := Event, bUseDynamic := True,
             Duration := max 0 InDuration, PhaseElapsed := 0, InitialDelay := 0,
             Phase := ETimerPhase_Running, bLoop := InLoop, bPaused := False,
             bAffectedByGamePause := InAffectedByGamePause, DilationMode := InDilationMode,
             DilationActor := InDilationActor, bNextTick := False\<rparr>;
          Data =
            (if DelayToStartCountingDown > 0 \<or> DelayToStartCountingDownVariation > 0 then
               let Rand = FRandRange rnd (- DelayToStartCountingDownVariation)
                            DelayToStartCountingDownVariation FRand;
                   Bigger = max 0 Rand;
                   Data1 = Data0\<lparr>InitialDelay :=
                                   max 0 (rnd (DelayToStartCountingDown + Bigger))\<rparr>
               in if InitialDelay Data1 > 0
                  then Data1\<lparr>Phase := ETimerPhase_InitialDelay, PhaseElapsed := 0\<rparr>
                  else Data1
             else Data0);
          s2 = s1\<lparr>Timers := AList.update (TimerId Data) Data (Timers s1)\<rparr>
      in (\<lparr>HandleId = TimerId Data, Owner = Some self\<rparr>, s2))"

text \<open>\<^verbatim>\<open>SetEnhancedTimerExecutedInNextTick_BP\<close> on the game thread.\<close>

definition SetEnhancedTimerExecutedInNextTick_BP ::
  "nat \<Rightarrow> 'cb option \<Rightarrow> ('cb, 'g) GameState \<Rightarrow> FEnhancedTimerHandle \<times> ('cb, 'g) GameState" where
  "SetEnhancedTimerExecutedInNextTick_BP self Event s =
     (let (NewId, s1) = AllocateId s;
          Data = DefaultData
            \<lparr>TimerId := NewId, DynamicDelegate := Event, bUseDynamic := True,
             Duration := 0, PhaseElapsed := 0, InitialDelay := 0,
             Phase := ETimerPhase_Running, bLoop := False, bPaused := False,
             bAffectedByGamePause := True, DilationMode := IgnoreTimeDilation,
             bNextTick := True\<rparr>;
          s2 = s1\<lparr>Timers := AList.update (TimerId Data) Data (Timers s1)\<rparr>
      in (\<lparr>HandleId = TimerId Data, Owner = Some self\<rparr>, s2))"

section \<open>The tick\<close>

text \<open>The quick pass over the snapshot that pre-marks next-tick timers; \<open>Fired\<close> is
  \<^verbatim>\<open>FiredThisTick\<close>.\<close>

fun PreMark :: "bool \<Rightarrow> (uint64 \<times> 'cb FEnhancedTimerData) list \<Rightarrow> uint64 list \<Rightarrow> uint64 list" where
  "PreMark bPausedNow [] Fired = Fired"
| "PreMark bPausedNow ((K, T) # Rest) Fired =
     (if bPaused T then PreMark bPausedNow Rest Fired
      else if bPausedNow \<and> \<not> bAffectedByGamePause T then PreMark bPausedNow Rest Fired
      else if bNextTick T then PreMark bPausedNow Rest (Fired @ [K])
      else PreMark bPausedNow Rest Fired)"

text \<open>The body of the mutable pass for one record: the record as the pass leaves it and
  whether its key is added to \<^verbatim>\<open>FiredThisTick\<close>.\<close>

definition MutateTimer ::
  "rounding \<Rightarrow> actors \<Rightarrow> UWorld \<Rightarrow> bool \<Rightarrow> real \<Rightarrow> 'cb FEnhancedTimerData \<Rightarrow>
   'cb FEnhancedTimerData \<times> bool" where
  "MutateTimer rnd live World bPausedNow DeltaTime T =
     (if bPaused T then (T, False)
      else if bPausedNow \<and> \<not> bAffectedByGamePause T then (T, False)
      else if bNextTick T then (T, False)
      else
        let Eff = GetEffectiveDelta rnd live T DeltaTime (Some World);
            T1 = Advance rnd Eff T;
            (Transited, T2) = TryTransitFromDelay rnd T1
        in if Transited then (T2, False)
           else (T2, ShouldFire rnd T2))"

text \<open>The mutable pass over the live map.\<close>

fun MutablePass ::
  "rounding \<Rightarrow> actors \<Rightarrow> UWorld \<Rightarrow> bool \<Rightarrow> real \<Rightarrow> (uint64 \<times> 'cb FEnhancedTimerData) list \<Rightarrow>
   uint64 list \<Rightarrow> (uint64 \<times> 'cb FEnhancedTimerData) list \<times> uint64 list" where
  "MutablePass rnd live World bPausedNow DeltaTime [] Fired = ([], Fired)"
| "MutablePass rnd live World bPausedNow DeltaTime ((K, T) # Rest) Fired =
     (let (T', Fire) = MutateTimer rnd live World bPausedNow DeltaTime T;
          (Rest', Fired') =
             MutablePass rnd live World bPausedNow DeltaTime Rest
               (if Fire then Fired @ [K] else Fired)
      in ((K, T') # Rest', Fired'))"

text \<open>The delegate \<^verbatim>\<open>ExecuteFired\<close> runs for a record, \<open>None\<close> when it is not bound.\<close>

definition BoundDelegate :: "'cb FEnhancedTimerData \<Rightarrow> 'cb option" where
  "BoundDelegate Copy = (if bUseDynamic Copy then DynamicDelegate Copy else Delegate Copy)"

text \<open>A fire event: the id whose record was fetched for firing, and the delegate that
  was executed for it (\<open>None\<close> when none was bound). The events a function returns are
  its trace; what the execution of the delegate does is in the state.\<close>

type_synonym 'cb fire_event = "uint64 \<times> 'cb option"

text \<open>The body of the loop of \<^verbatim>\<open>ExecuteFired\<close> for one id: the fire event (none when the
  record is gone) and the state.\<close>

definition FireOne ::
  "('cb \<Rightarrow> ('cb, 'g) GameState \<Rightarrow> ('cb, 'g) GameState) \<Rightarrow> uint64 \<Rightarrow> ('cb, 'g) GameState \<Rightarrow>
   'cb fire_event list \<times> ('cb, 'g) GameState" where
  "FireOne invoke I s =
     (case GetData I s of
        None \<Rightarrow> ([], s)
      | Some Copy \<Rightarrow>
          let s1 = (case BoundDelegate Copy of None \<Rightarrow> s | Some cb \<Rightarrow> invoke cb s);
              s2 = (case FindMutable I s1 of
                      Some Mut \<Rightarrow>
                        if bLoop Mut
                        then s1\<lparr>Timers := AList.map_entry I
                                  (\<lambda>M. M\<lparr>Phase := ETimerPhase_Running, PhaseElapsed := 0,
                                         bNextTick := False\<rparr>) (Timers s1)\<rparr>
                        else s1\<lparr>ToRemove := ToRemove s1 @ [I]\<rparr>
                    | None \<Rightarrow> s1)
          in ([(I, BoundDelegate Copy)], s2))"

text \<open>The loop of \<^verbatim>\<open>ExecuteFired\<close> over the ids to fire. It returns the fire events in
  order and the state.\<close>

fun FireLoop ::
  "('cb \<Rightarrow> ('cb, 'g) GameState \<Rightarrow> ('cb, 'g) GameState) \<Rightarrow> uint64 list \<Rightarrow> ('cb, 'g) GameState \<Rightarrow>
   'cb fire_event list \<times> ('cb, 'g) GameState" where
  "FireLoop invoke [] s = ([], s)"
| "FireLoop invoke (I # Rest) s =
     (let (Events1, s1) = FireOne invoke I s;
          (Events2, s2) = FireLoop invoke Rest s1
      in (Events1 @ Events2, s2))"

text \<open>\<^verbatim>\<open>ExecuteFired\<close>.\<close>

definition ExecuteFired ::
  "('cb \<Rightarrow> ('cb, 'g) GameState \<Rightarrow> ('cb, 'g) GameState) \<Rightarrow> ('cb, 'g) GameState \<Rightarrow>
   'cb fire_event list \<times> ('cb, 'g) GameState" where
  "ExecuteFired invoke s =
     (if FiredThisTick s = [] then ([], s)
      else let ToFire = FiredThisTick s;
               s1 = s\<lparr>FiredThisTick := []\<rparr>
           in FireLoop invoke ToFire s1)"

text \<open>\<^verbatim>\<open>Cleanup\<close>.\<close>

definition Cleanup :: "('cb, 'g) GameState \<Rightarrow> ('cb, 'g) GameState" where
  "Cleanup s =
     (if ToRemove s = [] \<and> ToUnpause s = [] then s
      else let s1 = s\<lparr>Timers := foldl (\<lambda>M I. AList.delete I M) (Timers s) (ToRemove s),
                       ToRemove := []\<rparr>;
               s2 = s1\<lparr>Timers := foldl (\<lambda>M I. AList.map_entry I (\<lambda>T. T\<lparr>bPaused := False\<rparr>) M)
                                    (Timers s1) (ToUnpause s1),
                        ToUnpause := []\<rparr>
           in s2)"

text \<open>\<^verbatim>\<open>Tick(DeltaTime)\<close>. \<open>World\<close> is what \<^verbatim>\<open>GetWorld()\<close> returns (\<open>None\<close> for \<^verbatim>\<open>nullptr\<close>),
  \<open>live\<close> the actors alive in this frame. Returns the fire events of the frame and the
  state.\<close>

definition Tick ::
  "rounding \<Rightarrow> ('cb \<Rightarrow> ('cb, 'g) GameState \<Rightarrow> ('cb, 'g) GameState) \<Rightarrow> actors \<Rightarrow> UWorld option \<Rightarrow>
   real \<Rightarrow> ('cb, 'g) GameState \<Rightarrow> 'cb fire_event list \<times> ('cb, 'g) GameState" where
  "Tick rnd invoke live World DeltaTime s =
     (case World of
        None \<Rightarrow> ([], s)
      | Some W \<Rightarrow>
          let bPausedNow = GamePaused W;
              Snapshot = Timers s;
              s1 = s\<lparr>FiredThisTick := PreMark bPausedNow Snapshot (FiredThisTick s)\<rparr>;
              (Timers', Fired') =
                 MutablePass rnd live W bPausedNow DeltaTime (Timers s1) (FiredThisTick s1);
              s2 = s1\<lparr>Timers := Timers', FiredThisTick := Fired'\<rparr>;
              (Events, s3) = ExecuteFired invoke s2
          in (Events, Cleanup s3))"

section \<open>Single-handle and bulk operations of the subsystem\<close>

text \<open>The queries are \<^verbatim>\<open>const\<close> member functions: they read the state and return a value,
  so each is a function of the state with no successor state.\<close>

definition IsTimerValid :: "('cb, 'g) GameState \<Rightarrow> FEnhancedTimerHandle \<Rightarrow> bool" where
  "IsTimerValid s Handle =
     (if HandleId Handle = 0 then False else map_of (Timers s) (HandleId Handle) \<noteq> None)"

definition InvalidateTimer ::
  "FEnhancedTimerHandle \<Rightarrow> ('cb, 'g) GameState \<Rightarrow> ('cb, 'g) GameState" where
  "InvalidateTimer Handle s =
     (if HandleId Handle = 0 then s
      else s\<lparr>Timers := AList.delete (HandleId Handle) (Timers s)\<rparr>)"

definition IsTimerPaused :: "('cb, 'g) GameState \<Rightarrow> FEnhancedTimerHandle \<Rightarrow> bool" where
  "IsTimerPaused s Handle =
     (case GetData (HandleId Handle) s of Some T \<Rightarrow> bPaused T | None \<Rightarrow> False)"

definition PauseTimer ::
  "FEnhancedTimerHandle \<Rightarrow> ('cb, 'g) GameState \<Rightarrow> ('cb, 'g) GameState" where
  "PauseTimer Handle s =
     (case FindMutable (HandleId Handle) s of
        Some T \<Rightarrow> s\<lparr>Timers := AList.map_entry (HandleId Handle) (\<lambda>M. M\<lparr>bPaused := True\<rparr>) (Timers s)\<rparr>
      | None \<Rightarrow> s)"

definition UnpauseTimer ::
  "FEnhancedTimerHandle \<Rightarrow> ('cb, 'g) GameState \<Rightarrow> ('cb, 'g) GameState" where
  "UnpauseTimer Handle s =
     (case FindMutable (HandleId Handle) s of
        Some T \<Rightarrow> s\<lparr>Timers := AList.map_entry (HandleId Handle) (\<lambda>M. M\<lparr>bPaused := False\<rparr>) (Timers s)\<rparr>
      | None \<Rightarrow> s)"

definition IsTimerLooping :: "('cb, 'g) GameState \<Rightarrow> FEnhancedTimerHandle \<Rightarrow> bool" where
  "IsTimerLooping s Handle =
     (case GetData (HandleId Handle) s of Some T \<Rightarrow> bLoop T | None \<Rightarrow> False)"

definition GetTimerDuration :: "('cb, 'g) GameState \<Rightarrow> FEnhancedTimerHandle \<Rightarrow> real" where
  "GetTimerDuration s Handle =
     (case GetData (HandleId Handle) s of Some T \<Rightarrow> Duration T | None \<Rightarrow> - 1)"

definition GetTimerTimeLeft ::
  "rounding \<Rightarrow> ('cb, 'g) GameState \<Rightarrow> FEnhancedTimerHandle \<Rightarrow> real" where
  "GetTimerTimeLeft rnd s Handle =
     (case GetData (HandleId Handle) s of
        None \<Rightarrow> - 1
      | Some T \<Rightarrow>
          if Phase T = ETimerPhase_InitialDelay
          then (let RemDelay = max 0 (rnd (InitialDelay T - PhaseElapsed T)) in RemDelay)
          else max 0 (rnd (Duration T - PhaseElapsed T)))"

definition GetTimerElapsedTime :: "('cb, 'g) GameState \<Rightarrow> FEnhancedTimerHandle \<Rightarrow> real" where
  "GetTimerElapsedTime s Handle =
     (case GetData (HandleId Handle) s of Some T \<Rightarrow> PhaseElapsed T | None \<Rightarrow> - 1)"

definition IsTimerAffectedByGamePause :: "('cb, 'g) GameState \<Rightarrow> FEnhancedTimerHandle \<Rightarrow> bool" where
  "IsTimerAffectedByGamePause s Handle =
     (case GetData (HandleId Handle) s of Some T \<Rightarrow> bAffectedByGamePause T | None \<Rightarrow> False)"

definition GetTimerTimeDilationMode ::
  "('cb, 'g) GameState \<Rightarrow> FEnhancedTimerHandle \<Rightarrow> EEnhancedTimerTimeDilationMode" where
  "GetTimerTimeDilationMode s Handle =
     (case GetData (HandleId Handle) s of Some T \<Rightarrow> DilationMode T | None \<Rightarrow> IgnoreTimeDilation)"

definition InvalidateAllTimers :: "('cb, 'g) GameState \<Rightarrow> ('cb, 'g) GameState" where
  "InvalidateAllTimers s = s\<lparr>Timers := []\<rparr>"

definition PauseAllTimers :: "('cb, 'g) GameState \<Rightarrow> ('cb, 'g) GameState" where
  "PauseAllTimers s = s\<lparr>Timers := map (\<lambda>(K, T). (K, T\<lparr>bPaused := True\<rparr>)) (Timers s)\<rparr>"

definition UnpauseAllTimers :: "('cb, 'g) GameState \<Rightarrow> ('cb, 'g) GameState" where
  "UnpauseAllTimers s = s\<lparr>Timers := map (\<lambda>(K, T). (K, T\<lparr>bPaused := False\<rparr>)) (Timers s)\<rparr>"

section \<open>The handle\<close>

text \<open>The subsystem objects that are alive, by object identity. \<^verbatim>\<open>Owner.IsValid()\<close> holds
  when the weak pointer of the handle resolves to one of them.\<close>

type_synonym ('cb, 'g) objects = "nat \<Rightarrow> ('cb, 'g) GameState option"

definition Owner_Get ::
  "('cb, 'g) objects \<Rightarrow> FEnhancedTimerHandle \<Rightarrow> ('cb, 'g) GameState option" where
  "Owner_Get objs H = (case Owner H of None \<Rightarrow> None | Some p \<Rightarrow> objs p)"

text \<open>\<^verbatim>\<open>FEnhancedTimerHandle::IsValid\<close> and the other queries of the handle.\<close>

definition Handle_IsValid :: "('cb, 'g) objects \<Rightarrow> FEnhancedTimerHandle \<Rightarrow> bool" where
  "Handle_IsValid objs H =
     (HandleId H \<noteq> 0 \<and>
      (case Owner_Get objs H of Some s \<Rightarrow> IsTimerValid s H | None \<Rightarrow> False))"

definition Handle_IsPaused :: "('cb, 'g) objects \<Rightarrow> FEnhancedTimerHandle \<Rightarrow> bool" where
  "Handle_IsPaused objs H =
     (case Owner_Get objs H of Some s \<Rightarrow> IsTimerPaused s H | None \<Rightarrow> False)"

definition Handle_IsLooping :: "('cb, 'g) objects \<Rightarrow> FEnhancedTimerHandle \<Rightarrow> bool" where
  "Handle_IsLooping objs H =
     (case Owner_Get objs H of Some s \<Rightarrow> IsTimerLooping s H | None \<Rightarrow> False)"

definition Handle_GetDuration :: "('cb, 'g) objects \<Rightarrow> FEnhancedTimerHandle \<Rightarrow> real" where
  "Handle_GetDuration objs H =
     (case Owner_Get objs H of Some s \<Rightarrow> GetTimerDuration s H | None \<Rightarrow> - 1)"

definition Handle_GetTimeLeft ::
  "rounding \<Rightarrow> ('cb, 'g) objects \<Rightarrow> FEnhancedTimerHandle \<Rightarrow> real" where
  "Handle_GetTimeLeft rnd objs H =
     (case Owner_Get objs H of Some s \<Rightarrow> GetTimerTimeLeft rnd s H | None \<Rightarrow> - 1)"

definition Handle_GetElapsedTime :: "('cb, 'g) objects \<Rightarrow> FEnhancedTimerHandle \<Rightarrow> real" where
  "Handle_GetElapsedTime objs H =
     (case Owner_Get objs H of Some s \<Rightarrow> GetTimerElapsedTime s H | None \<Rightarrow> - 1)"

definition Handle_IsAffectedByGamePause :: "('cb, 'g) objects \<Rightarrow> FEnhancedTimerHandle \<Rightarrow> bool" where
  "Handle_IsAffectedByGamePause objs H =
     (case Owner_Get objs H of Some s \<Rightarrow> IsTimerAffectedByGamePause s H | None \<Rightarrow> False)"

definition Handle_GetTimeDilationMode ::
  "('cb, 'g) objects \<Rightarrow> FEnhancedTimerHandle \<Rightarrow> EEnhancedTimerTimeDilationMode" where
  "Handle_GetTimeDilationMode objs H =
     (case Owner_Get objs H of
        Some s \<Rightarrow> GetTimerTimeDilationMode s H
      | None \<Rightarrow> IgnoreTimeDilation)"

text \<open>\<^verbatim>\<open>FEnhancedTimerHandle::Invalidate\<close>, \<^verbatim>\<open>Pause\<close> and \<^verbatim>\<open>Unpause\<close> change the owning
  subsystem object when it is alive.\<close>

definition Handle_Invalidate :: "('cb, 'g) objects \<Rightarrow> FEnhancedTimerHandle \<Rightarrow> ('cb, 'g) objects" where
  "Handle_Invalidate objs H =
     (case Owner H of
        None \<Rightarrow> objs
      | Some p \<Rightarrow> (case objs p of None \<Rightarrow> objs | Some s \<Rightarrow> objs(p \<mapsto> InvalidateTimer H s)))"

definition Handle_Pause :: "('cb, 'g) objects \<Rightarrow> FEnhancedTimerHandle \<Rightarrow> ('cb, 'g) objects" where
  "Handle_Pause objs H =
     (case Owner H of
        None \<Rightarrow> objs
      | Some p \<Rightarrow> (case objs p of None \<Rightarrow> objs | Some s \<Rightarrow> objs(p \<mapsto> PauseTimer H s)))"

definition Handle_Unpause :: "('cb, 'g) objects \<Rightarrow> FEnhancedTimerHandle \<Rightarrow> ('cb, 'g) objects" where
  "Handle_Unpause objs H =
     (case Owner H of
        None \<Rightarrow> objs
      | Some p \<Rightarrow> (case objs p of None \<Rightarrow> objs | Some s \<Rightarrow> objs(p \<mapsto> UnpauseTimer H s)))"


section \<open>Runs, and the notions the theorems are stated with\<close>

text \<open>A frame of the host: the actors alive, the world \<^verbatim>\<open>GetWorld()\<close> returns and the
  \<^verbatim>\<open>DeltaTime\<close> passed to \<^verbatim>\<open>Tick\<close>. \<open>Ticks\<close> runs \<^verbatim>\<open>Tick\<close> once per frame and collects the
  fire events.\<close>

type_synonym frame = "actors \<times> UWorld option \<times> real"


text \<open>The fire events of one timer, and the delegates a list of fire events says were
  executed, in order.\<close>

definition EventsOf :: "uint64 \<Rightarrow> 'cb fire_event list \<Rightarrow> 'cb fire_event list" where
  "EventsOf I Events = filter (\<lambda>e. fst e = I) Events"

definition Executions :: "'cb fire_event list \<Rightarrow> 'cb list" where
  "Executions Events = concat (map (\<lambda>(I, D). case D of None \<Rightarrow> [] | Some cb \<Rightarrow> [cb]) Events)"

text \<open>The state between two ticks: the work queues are empty (\<^verbatim>\<open>ExecuteFired\<close> and
  \<^verbatim>\<open>Cleanup\<close> empty them) and the keys of the map are unique.\<close>

definition Idle :: "('cb, 'g) GameState \<Rightarrow> bool" where
  "Idle s \<longleftrightarrow>
     FiredThisTick s = [] \<and> ToRemove s = [] \<and> ToUnpause s = [] \<and> distinct (map fst (Timers s))"

text \<open>What is assumed of the game code behind the delegates when a theorem follows the
  timer \<open>I\<close> through a tick. The game code is outside the class: in whatever state a
  callback runs, it leaves the private work queues as they are and the keys of the map
  unique (every public entry point of the subsystem does). Under \<open>CallbacksSpare\<close> it may
  change the other records and the rest of the game in any way and may pause or unpause
  the timer \<open>I\<close>, but it does not invalidate the timer \<open>I\<close> or replace its record. Under
  \<open>CallbacksKeep\<close> it does not pause or unpause the timer \<open>I\<close> either: it leaves the record of
  \<open>I\<close> as it is.\<close>

definition CallbacksSpare ::
  "('cb \<Rightarrow> ('cb, 'g) GameState \<Rightarrow> ('cb, 'g) GameState) \<Rightarrow> uint64 \<Rightarrow> bool" where
  "CallbacksSpare invoke I \<longleftrightarrow>
     (\<forall>cb s. FiredThisTick (invoke cb s) = FiredThisTick s \<and>
             ToRemove (invoke cb s) = ToRemove s \<and>
             ToUnpause (invoke cb s) = ToUnpause s \<and>
             (distinct (map fst (Timers s)) \<longrightarrow> distinct (map fst (Timers (invoke cb s)))) \<and>
             (\<forall>T. map_of (Timers s) I = Some T \<longrightarrow>
                  (\<exists>b. map_of (Timers (invoke cb s)) I = Some (T\<lparr>bPaused := b\<rparr>))))"

definition CallbacksKeep ::
  "('cb \<Rightarrow> ('cb, 'g) GameState \<Rightarrow> ('cb, 'g) GameState) \<Rightarrow> uint64 \<Rightarrow> bool" where
  "CallbacksKeep invoke I \<longleftrightarrow>
     (\<forall>cb s. FiredThisTick (invoke cb s) = FiredThisTick s \<and>
             ToRemove (invoke cb s) = ToRemove s \<and>
             ToUnpause (invoke cb s) = ToUnpause s \<and>
             (distinct (map fst (Timers s)) \<longrightarrow> distinct (map fst (Timers (invoke cb s)))) \<and>
             map_of (Timers (invoke cb s)) I = map_of (Timers s) I)"


text \<open>The Dilation Resolver in the words of the specification: a function of the mode,
  the raw delta, the global scale and the scale of the source (\<open>None\<close> for a dead or
  absent source); its products are float products. It is compared with
  \<open>GetEffectiveDelta\<close> below.\<close>

definition DilationResolver_spec ::
  "rounding \<Rightarrow> EEnhancedTimerTimeDilationMode \<Rightarrow> real \<Rightarrow> real \<Rightarrow> real option \<Rightarrow> real" where
  "DilationResolver_spec rnd mode rawDelta globalScale sourceScale =
     (case mode of
        IgnoreTimeDilation \<Rightarrow> rawDelta
      | GlobalTimeDilation \<Rightarrow> rnd (rawDelta * globalScale)
      | ActorTimeDilation \<Rightarrow>
          (case sourceScale of
             Some sc \<Rightarrow> rnd (rawDelta * max UE_SMALL_NUMBER sc)
           | None \<Rightarrow> rawDelta))"

text \<open>The calls that touch the id counter over the life of a subsystem object, and a run
  of them that collects the ids \<^verbatim>\<open>AllocateId\<close> hands out.\<close>

datatype LifecycleCall = CallAllocateId | CallDeinitialize | CallInitialize

fun RunLifecycle ::
  "LifecycleCall list \<Rightarrow> ('cb, 'g) GameState \<Rightarrow> uint64 list \<times> ('cb, 'g) GameState" where
  "RunLifecycle [] s = ([], s)"
| "RunLifecycle (CallAllocateId # Calls) s =
     (let (Out, s1) = AllocateId s;
          (Ids, s2) = RunLifecycle Calls s1
      in (Out # Ids, s2))"
| "RunLifecycle (CallDeinitialize # Calls) s = RunLifecycle Calls (Deinitialize s)"
| "RunLifecycle (CallInitialize # Calls) s = RunLifecycle Calls (Initialize s)"

text \<open>A derived notion, used to state what one tick does to one record: the record \<open>T\<close>
  is marked due to fire in a frame with world \<open>W\<close>, either by the pre-marking pass (a
  next-tick record that is not paused) or by the mutable pass.\<close>

definition TimerDue ::
  "rounding \<Rightarrow> actors \<Rightarrow> UWorld \<Rightarrow> real \<Rightarrow> 'cb FEnhancedTimerData \<Rightarrow> bool" where
  "TimerDue rnd live W DeltaTime T \<longleftrightarrow>
     (\<not> bPaused T \<and> \<not> (GamePaused W \<and> \<not> bAffectedByGamePause T) \<and> bNextTick T) \<or>
     snd (MutateTimer rnd live W (GamePaused W) DeltaTime T)"

text \<open>Derived notions, used to follow one record through a run of ticks. \<open>DueInFrame\<close>:
  the tick of the frame finds the record due (a tick without a world finds nothing due).
  \<open>RecordAfter\<close>: the record as the mutable passes of the frames leave it, one after the
  other (a tick without a world leaves it as it is). \<open>NeverDue\<close>: no frame of the run finds
  the record, as the frames before it left it, due.\<close>

fun DueInFrame :: "rounding \<Rightarrow> frame \<Rightarrow> 'cb FEnhancedTimerData \<Rightarrow> bool" where
  "DueInFrame rnd (live, World, DeltaTime) T =
     (case World of None \<Rightarrow> False | Some W \<Rightarrow> TimerDue rnd live W DeltaTime T)"

fun RecordAfter ::
  "rounding \<Rightarrow> frame list \<Rightarrow> 'cb FEnhancedTimerData \<Rightarrow> 'cb FEnhancedTimerData" where
  "RecordAfter rnd [] T = T"
| "RecordAfter rnd ((live, World, DeltaTime) # Frames) T =
     RecordAfter rnd Frames
       (case World of
          None \<Rightarrow> T
        | Some W \<Rightarrow> fst (MutateTimer rnd live W (GamePaused W) DeltaTime T))"


text \<open>A derived notion: the value \<^verbatim>\<open>AllocateId\<close> leaves in the counter \<^verbatim>\<open>NextId\<close> when it
  found \<open>x\<close> there (the increment modulo \<open>2 ^ 64\<close>, then the skip of 0).\<close>

definition NextIdAfter :: "uint64 \<Rightarrow> uint64" where
  "NextIdAfter x = (if x + 1 = 0 then 1 else x + 1)"

text \<open>The games of the examples. \<open>InertCallbacks\<close>: game code that changes nothing. In the
  other examples the rest of the game is a log of the delegates executed, empty in
  \<open>EmptyGame\<close>, which holds a freshly constructed subsystem. \<open>LoggingCallbacks\<close>: the game
  code of a delegate only appends the delegate to the log. \<open>PausingCallbacks H\<close> and
  \<open>InvalidatingCallbacks H\<close>: game code that, besides, calls \<^verbatim>\<open>PauseTimer\<close> or
  \<^verbatim>\<open>InvalidateTimer\<close> on the handle \<open>H\<close>.\<close>

definition EmptyGame :: "('cb, 'cb list) GameState" where
  "EmptyGame =
     \<lparr>Timers = [], FiredThisTick = [], ToRemove = [], ToUnpause = [], NextId = 1, \<dots> = []\<rparr>"

definition InertCallbacks :: "'cb \<Rightarrow> ('cb, 'g) GameState \<Rightarrow> ('cb, 'g) GameState" where
  "InertCallbacks cb s = s"




section \<open>The rounding of binary32 on some numbers\<close>

lemmas binary32 =
  Binary32Round_def Binary32Exponent_def RoundHalfEven_def Log2Floor.simps Let_def

lemma KINDA_SMALL_NUMBER_binary32: "KINDA_SMALL_NUMBER = Binary32Round (1 / 10 ^ 4)"
  by (simp add: KINDA_SMALL_NUMBER_def binary32)

lemma UE_SMALL_NUMBER_binary32: "UE_SMALL_NUMBER = Binary32Round (1 / 10 ^ 8)"
  by (simp add: UE_SMALL_NUMBER_def binary32)

text \<open>Numbers with few significant bits are floats: the rounding leaves them as they are.\<close>

lemma Binary32Round_exact:
  "Binary32Round 0 = 0" "Binary32Round 1 = 1" "Binary32Round 2 = 2" "Binary32Round 3 = 3"
  "Binary32Round (1 / 2) = 1 / 2" "Binary32Round (3 / 2) = 3 / 2" "Binary32Round (1 / 4) = 1 / 4"
  "Binary32Round (3 / 4) = 3 / 4" "Binary32Round (5 / 4) = 5 / 4"
  "Binary32Round (- (1 / 2)) = - (1 / 2)" "Binary32Round 16777216 = 16777216"
  by (simp_all add: binary32)

text \<open>The test \<^verbatim>\<open>PhaseElapsed + KINDA_SMALL_NUMBER >= Duration\<close> on some numbers.\<close>

lemma KINDA_SMALL_NUMBER_pos: "0 < KINDA_SMALL_NUMBER" "0 \<le> KINDA_SMALL_NUMBER"
  by (simp_all add: KINDA_SMALL_NUMBER_def)

lemma Binary32Round_tolerance:
  "Binary32Round KINDA_SMALL_NUMBER = KINDA_SMALL_NUMBER"
  "Binary32Round (1 / 2 + KINDA_SMALL_NUMBER) = 4195143 / 2 ^ 23"
  "Binary32Round (1 + KINDA_SMALL_NUMBER) = 8389447 / 2 ^ 23"
  "Binary32Round (3 / 2 + KINDA_SMALL_NUMBER) = 12583751 / 2 ^ 23"
  "Binary32Round (2 + KINDA_SMALL_NUMBER) = 8389027 / 2 ^ 22"
  "Binary32Round (16777216 + KINDA_SMALL_NUMBER) = 16777216"
  by (simp_all add: KINDA_SMALL_NUMBER_def binary32)


section \<open>The passes of the tick, as list functions\<close>

lemma PreMark_eq:
  "PreMark p Ts F =
     F @ map fst (filter (\<lambda>(K, T). \<not> bPaused T \<and> \<not> (p \<and> \<not> bAffectedByGamePause T) \<and> bNextTick T) Ts)"
  by (induction p Ts F rule: PreMark.induct) auto

lemma MutablePass_eq:
  "MutablePass rnd live W p dt Ts F =
     (map (\<lambda>(K, T). (K, fst (MutateTimer rnd live W p dt T))) Ts,
      F @ map fst (filter (\<lambda>(K, T). snd (MutateTimer rnd live W p dt T)) Ts))"
  by (induction Ts arbitrary: F) (auto split: prod.splits)

lemma MutateTimer_skip:
  "bPaused T \<or> (p \<and> \<not> bAffectedByGamePause T) \<or> bNextTick T \<Longrightarrow>
     MutateTimer rnd live W p dt T = (T, False)"
  by (auto simp: MutateTimer_def)

lemma MutateTimer_fields:
  "fst (MutateTimer rnd live W p dt T)\<lparr>Phase := Phase T, PhaseElapsed := PhaseElapsed T\<rparr> = T"
  by (auto simp: MutateTimer_def TryTransitFromDelay_def Advance_def Let_def split: prod.splits)

lemma map_of_map_values:
  "map_of (map (\<lambda>(K, T). (K, f T)) Ts) I = map_option f (map_of Ts I)"
  by (induction Ts) auto

lemma keys_map_values: "map fst (map (\<lambda>(K, T). (K, f T)) Ts) = map fst Ts"
  by (induction Ts) auto

lemma map_of_foldl_delete:
  "map_of (foldl (\<lambda>M I. AList.delete I M) M Ids) I =
     (if I \<in> set Ids then None else map_of M I)"
  by (induction Ids arbitrary: M) (auto simp: delete_conv')

lemma distinct_foldl_delete:
  "distinct (map fst M) \<Longrightarrow> distinct (map fst (foldl (\<lambda>M I. AList.delete I M) M Ids))"
  by (induction Ids arbitrary: M) (auto simp: distinct_delete)

lemma Cleanup_focus:
  assumes "ToUnpause s = []"
  shows "map_of (Timers (Cleanup s)) I = (if I \<in> set (ToRemove s) then None else map_of (Timers s) I)"
    and "ToRemove (Cleanup s) = []" and "ToUnpause (Cleanup s) = []"
    and "FiredThisTick (Cleanup s) = FiredThisTick s"
    and "distinct (map fst (Timers s)) \<Longrightarrow> distinct (map fst (Timers (Cleanup s)))"
  using assms by (auto simp: Cleanup_def Let_def map_of_foldl_delete distinct_foldl_delete)

section \<open>The fire loop, followed for one timer\<close>

lemma CallbacksKeepD:
  assumes "CallbacksKeep invoke I"
  shows "FiredThisTick (invoke cb s) = FiredThisTick s"
    and "ToRemove (invoke cb s) = ToRemove s"
    and "ToUnpause (invoke cb s) = ToUnpause s"
    and "distinct (map fst (Timers s)) \<Longrightarrow> distinct (map fst (Timers (invoke cb s)))"
    and "map_of (Timers (invoke cb s)) I = map_of (Timers s) I"
  using assms unfolding CallbacksKeep_def by blast+

lemma CallbacksSpareD:
  assumes "CallbacksSpare invoke I"
  shows "FiredThisTick (invoke cb s) = FiredThisTick s"
    and "ToRemove (invoke cb s) = ToRemove s"
    and "ToUnpause (invoke cb s) = ToUnpause s"
    and "distinct (map fst (Timers s)) \<Longrightarrow> distinct (map fst (Timers (invoke cb s)))"
    and "map_of (Timers s) I = Some T \<Longrightarrow>
           \<exists>b. map_of (Timers (invoke cb s)) I = Some (T\<lparr>bPaused := b\<rparr>)"
  using assms unfolding CallbacksSpare_def by blast+

lemma CallbacksKeep_Spare:
  assumes "CallbacksKeep invoke I"
  shows "CallbacksSpare invoke I"
proof -
  have "\<exists>b. map_of (Timers (invoke cb s)) I = Some (T\<lparr>bPaused := b\<rparr>)"
    if "map_of (Timers s) I = Some T" for cb s T
  proof -
    from CallbacksKeepD(5)[OF assms, of cb s] that
    have "map_of (Timers (invoke cb s)) I = Some (T\<lparr>bPaused := bPaused T\<rparr>)" by simp
    then show ?thesis ..
  qed
  with CallbacksKeepD(1-4)[OF assms] show ?thesis
    unfolding CallbacksSpare_def by simp
qed

lemma FireOne_frame:
  assumes "CallbacksSpare invoke I" and "FireOne invoke J s = (E, s')"
  shows "FiredThisTick s' = FiredThisTick s" and "ToUnpause s' = ToUnpause s"
    and "distinct (map fst (Timers s)) \<Longrightarrow> distinct (map fst (Timers s'))"
  using assms(2) CallbacksSpareD(1-4)[OF assms(1)]
  by (auto simp: FireOne_def Let_def GetData_def FindMutable_def distinct_map_entry
      split: option.splits if_splits)

lemma FireOne_other:
  assumes "CallbacksKeep invoke I" and "J \<noteq> I" and "FireOne invoke J s = (E, s')"
  shows "map_of (Timers s') I = map_of (Timers s) I"
    and "I \<in> set (ToRemove s') \<longleftrightarrow> I \<in> set (ToRemove s)"
    and "EventsOf I E = []"
  using assms(2,3) CallbacksKeepD[OF assms(1)]
  by (auto simp: FireOne_def Let_def GetData_def FindMutable_def map_of_map_entry EventsOf_def
      split: option.splits if_splits)

lemma FireOne_self:
  assumes "CallbacksKeep invoke I" and "map_of (Timers s) I = Some T"
    and "FireOne invoke I s = (E, s')"
  shows "E = [(I, BoundDelegate T)]"
    and "bLoop T \<Longrightarrow> map_of (Timers s') I =
           Some (T\<lparr>Phase := ETimerPhase_Running, PhaseElapsed := 0, bNextTick := False\<rparr>)"
    and "bLoop T \<Longrightarrow> I \<in> set (ToRemove s') \<longleftrightarrow> I \<in> set (ToRemove s)"
    and "\<not> bLoop T \<Longrightarrow> map_of (Timers s') I = Some T"
    and "\<not> bLoop T \<Longrightarrow> I \<in> set (ToRemove s')"
  using assms(2,3) CallbacksKeepD[OF assms(1)]
  by (auto simp: FireOne_def Let_def GetData_def FindMutable_def map_of_map_entry
      split: option.splits if_splits)

lemma FireLoop_frame:
  assumes "CallbacksSpare invoke I" and "FireLoop invoke Ids s = (E, s')"
  shows "FiredThisTick s' = FiredThisTick s \<and> ToUnpause s' = ToUnpause s \<and>
         (distinct (map fst (Timers s)) \<longrightarrow> distinct (map fst (Timers s')))"
  using assms(2)
proof (induction Ids arbitrary: s E s')
  case Nil
  then show ?case by simp
next
  case (Cons J Rest)
  obtain E1 s1 where one: "FireOne invoke J s = (E1, s1)" by (cases "FireOne invoke J s")
  obtain E2 s2 where rest: "FireLoop invoke Rest s1 = (E2, s2)" by (cases "FireLoop invoke Rest s1")
  from Cons.prems one rest have "s' = s2" by simp
  with Cons.IH[OF rest] FireOne_frame[OF assms(1) one] show ?case by simp
qed

lemma FireLoop_other:
  assumes "CallbacksKeep invoke I" and "I \<notin> set Ids" and "FireLoop invoke Ids s = (E, s')"
  shows "map_of (Timers s') I = map_of (Timers s) I \<and>
         (I \<in> set (ToRemove s') \<longleftrightarrow> I \<in> set (ToRemove s)) \<and> EventsOf I E = []"
  using assms(2,3)
proof (induction Ids arbitrary: s E s')
  case Nil
  then show ?case by (simp add: EventsOf_def)
next
  case (Cons J Rest)
  obtain E1 s1 where one: "FireOne invoke J s = (E1, s1)" by (cases "FireOne invoke J s")
  obtain E2 s2 where rest: "FireLoop invoke Rest s1 = (E2, s2)" by (cases "FireLoop invoke Rest s1")
  from Cons.prems one rest have eq: "s' = s2" "E = E1 @ E2" by simp_all
  from Cons.prems have "J \<noteq> I" "I \<notin> set Rest" by auto
  with Cons.IH[OF _ rest] FireOne_other[OF assms(1) _ one] eq show ?case
    by (simp add: EventsOf_def)
qed

lemma FireLoop_self:
  assumes "CallbacksKeep invoke I" and "distinct Ids" and "I \<in> set Ids"
    and "map_of (Timers s) I = Some T" and "FireLoop invoke Ids s = (E, s')"
  shows "EventsOf I E = [(I, BoundDelegate T)] \<and>
         (if bLoop T
          then map_of (Timers s') I =
                 Some (T\<lparr>Phase := ETimerPhase_Running, PhaseElapsed := 0, bNextTick := False\<rparr>) \<and>
               (I \<in> set (ToRemove s') \<longleftrightarrow> I \<in> set (ToRemove s))
          else map_of (Timers s') I = Some T \<and> I \<in> set (ToRemove s'))"
  using assms(2-5)
proof (induction Ids arbitrary: s E s')
  case Nil
  then show ?case by simp
next
  case (Cons J Rest)
  obtain E1 s1 where one: "FireOne invoke J s = (E1, s1)" by (cases "FireOne invoke J s")
  obtain E2 s2 where rest: "FireLoop invoke Rest s1 = (E2, s2)" by (cases "FireLoop invoke Rest s1")
  from Cons.prems one rest have eq: "s' = s2" "E = E1 @ E2" by simp_all
  show ?case
  proof (cases "J = I")
    case True
    with Cons.prems have notin: "I \<notin> set Rest" by simp
    note self = FireOne_self[OF assms(1) Cons.prems(3) one[unfolded True]]
    note other = FireLoop_other[OF assms(1) notin rest]
    show ?thesis using self other eq by (auto simp: EventsOf_def)
  next
    case False
    with Cons.prems have inrest: "I \<in> set Rest" "distinct Rest" by auto
    note o = FireOne_other[OF assms(1) False one]
    from o(1) Cons.prems(3) have "map_of (Timers s1) I = Some T" by simp
    from Cons.IH[OF inrest(2) inrest(1) this rest] o eq show ?thesis
      by (auto simp: EventsOf_def)
  qed
qed

section \<open>One tick, followed for one timer\<close>

lemma ExecuteFired_eq:
  "ExecuteFired invoke s = FireLoop invoke (FiredThisTick s) (s\<lparr>FiredThisTick := []\<rparr>)"
  by (simp add: ExecuteFired_def Let_def)

lemma MutateTimer_fire_not_next: "snd (MutateTimer rnd live W p dt T) \<Longrightarrow> \<not> bNextTick T"
  by (auto simp: MutateTimer_def split: if_splits)

lemma MutateTimer_BoundDelegate [simp]:
  "BoundDelegate (fst (MutateTimer rnd live W p dt T)) = BoundDelegate T"
  by (auto simp: MutateTimer_def TryTransitFromDelay_def Advance_def Let_def BoundDelegate_def
      split: prod.splits)

lemma MutateTimer_bLoop [simp]:
  "bLoop (fst (MutateTimer rnd live W p dt T)) = bLoop T"
  by (auto simp: MutateTimer_def TryTransitFromDelay_def Advance_def Let_def
      split: prod.splits)

lemma distinct_marked:
  assumes "distinct (map fst Ts)" and "\<And>K T. P (K, T) \<Longrightarrow> Q (K, T) \<Longrightarrow> False"
  shows "distinct (map fst (filter P Ts) @ map fst (filter Q Ts))"
proof -
  have d1: "distinct (map fst (filter P Ts))" and d2: "distinct (map fst (filter Q Ts))"
    using assms(1) by (simp_all add: distinct_map_filter)
  have "set (map fst (filter P Ts)) \<inter> set (map fst (filter Q Ts)) = {}"
  proof (rule ccontr)
    assume "\<not> ?thesis"
    then obtain K where "K \<in> set (map fst (filter P Ts))" "K \<in> set (map fst (filter Q Ts))"
      by blast
    then obtain T1 T2 where a: "(K, T1) \<in> set Ts" "P (K, T1)" and b: "(K, T2) \<in> set Ts" "Q (K, T2)"
      by auto
    from assms(1) a(1) b(1) have "T1 = T2" by (rule eq_key_imp_eq_value)
    with a b assms(2) show False by blast
  qed
  with d1 d2 show ?thesis by simp
qed

lemma marked_iff:
  assumes "distinct (map fst Ts)"
  shows "I \<in> set (map fst (filter P Ts)) \<longleftrightarrow> (\<exists>T. map_of Ts I = Some T \<and> P (I, T))"
  using assms by (auto intro: rev_image_eqI)

lemma Tick_eq:
  assumes "FiredThisTick s = []"
  shows "Tick rnd invoke live (Some W) dt s =
     (case FireLoop invoke
        (map fst (filter (\<lambda>(K, T). \<not> bPaused T \<and> \<not> (GamePaused W \<and> \<not> bAffectedByGamePause T) \<and> bNextTick T) (Timers s)) @
         map fst (filter (\<lambda>(K, T). snd (MutateTimer rnd live W (GamePaused W) dt T)) (Timers s)))
        (s\<lparr>Timers := map (\<lambda>(K, T). (K, fst (MutateTimer rnd live W (GamePaused W) dt T))) (Timers s),
           FiredThisTick := []\<rparr>)
      of (E, s3) \<Rightarrow> (E, Cleanup s3))"
  using assms
  by (simp add: Tick_def Let_def PreMark_eq MutablePass_eq ExecuteFired_eq case_prod_beta)

lemma Tick_focus:
  assumes idle: "Idle s" and keep: "CallbacksKeep invoke I"
    and tick: "Tick rnd invoke live (Some W) dt s = (E, s')"
  shows "Idle s'"
    and "map_of (Timers s) I = None \<Longrightarrow> map_of (Timers s') I = None \<and> EventsOf I E = []"
    and "map_of (Timers s) I = Some T \<Longrightarrow> \<not> TimerDue rnd live W dt T \<Longrightarrow>
           map_of (Timers s') I = Some (fst (MutateTimer rnd live W (GamePaused W) dt T)) \<and>
           EventsOf I E = []"
    and "map_of (Timers s) I = Some T \<Longrightarrow> TimerDue rnd live W dt T \<Longrightarrow>
           EventsOf I E = [(I, BoundDelegate T)] \<and>
           map_of (Timers s') I =
             (if bLoop T
              then Some ((fst (MutateTimer rnd live W (GamePaused W) dt T))
                          \<lparr>Phase := ETimerPhase_Running, PhaseElapsed := 0, bNextTick := False\<rparr>)
              else None)"
proof -
  define P where "P = (\<lambda>(K :: uint64, T :: 'a FEnhancedTimerData).
     \<not> bPaused T \<and> \<not> (GamePaused W \<and> \<not> bAffectedByGamePause T) \<and> bNextTick T)"
  define Q where "Q = (\<lambda>(K :: uint64, T :: 'a FEnhancedTimerData). snd (MutateTimer rnd live W (GamePaused W) dt T))"
  define F where "F = map fst (filter P (Timers s)) @ map fst (filter Q (Timers s))"
  define Ts2 where "Ts2 = map (\<lambda>(K, T). (K, fst (MutateTimer rnd live W (GamePaused W) dt T))) (Timers s)"
  define s2 where "s2 = s\<lparr>Timers := Ts2, FiredThisTick := []\<rparr>"
  from idle have q: "FiredThisTick s = []" "ToRemove s = []" "ToUnpause s = []"
    and dist: "distinct (map fst (Timers s))" by (simp_all add: Idle_def)
  have tick': "Tick rnd invoke live (Some W) dt s = (case FireLoop invoke F s2 of (E, s3) \<Rightarrow> (E, Cleanup s3))"
    unfolding F_def s2_def Ts2_def P_def Q_def by (rule Tick_eq[OF q(1)])
  obtain E3 s3 where loop3: "FireLoop invoke F s2 = (E3, s3)" by (cases "FireLoop invoke F s2")
  with tick tick' have loop: "FireLoop invoke F s2 = (E, s3)" and s': "s' = Cleanup s3" by simp_all
  have dF: "distinct F" unfolding F_def
    by (rule distinct_marked[OF dist]) (auto simp: P_def Q_def dest: MutateTimer_fire_not_next)
  have inF: "I \<in> set F \<longleftrightarrow> (\<exists>T. map_of (Timers s) I = Some T \<and> TimerDue rnd live W dt T)"
    unfolding F_def using marked_iff[OF dist, of I P] marked_iff[OF dist, of I Q]
    by (auto simp: P_def Q_def TimerDue_def)
  have m2: "map_of (Timers s2) I = map_option (\<lambda>T. fst (MutateTimer rnd live W (GamePaused W) dt T)) (map_of (Timers s) I)"
    by (simp add: s2_def Ts2_def map_of_map_values)
  have d2: "distinct (map fst (Timers s2))"
    using dist by (simp add: s2_def Ts2_def keys_map_values del: map_map)
  have q2: "FiredThisTick s2 = []" "ToRemove s2 = []" "ToUnpause s2 = []"
    using q by (simp_all add: s2_def)
  note fr = FireLoop_frame[OF CallbacksKeep_Spare[OF keep] loop]
  from fr q2 d2 have q3: "FiredThisTick s3 = []" "ToUnpause s3 = []"
    and d3: "distinct (map fst (Timers s3))" by simp_all
  note cl = Cleanup_focus[OF q3(2)]
  show "Idle s'" using cl q3 d3 by (simp add: Idle_def s')
  {
    assume none: "map_of (Timers s) I = None"
    with inF have "I \<notin> set F" by simp
    from FireLoop_other[OF keep this loop] m2 none q2 cl(1)[of I]
    show "map_of (Timers s') I = None \<and> EventsOf I E = []" by (simp add: s')
  }
  {
    assume some: "map_of (Timers s) I = Some T" and nd: "\<not> TimerDue rnd live W dt T"
    with inF have "I \<notin> set F" by simp
    from FireLoop_other[OF keep this loop] m2 some q2 cl(1)[of I]
    show "map_of (Timers s') I = Some (fst (MutateTimer rnd live W (GamePaused W) dt T)) \<and>
           EventsOf I E = []" by (simp add: s')
  }
  {
    assume some: "map_of (Timers s) I = Some T" and due: "TimerDue rnd live W dt T"
    with inF have "I \<in> set F" by simp
    moreover from m2 some have "map_of (Timers s2) I = Some (fst (MutateTimer rnd live W (GamePaused W) dt T))"
      by simp
    ultimately have *: "EventsOf I E = [(I, BoundDelegate (fst (MutateTimer rnd live W (GamePaused W) dt T)))] \<and>
         (if bLoop (fst (MutateTimer rnd live W (GamePaused W) dt T))
          then map_of (Timers s3) I =
                 Some ((fst (MutateTimer rnd live W (GamePaused W) dt T))\<lparr>Phase := ETimerPhase_Running, PhaseElapsed := 0, bNextTick := False\<rparr>) \<and>
               (I \<in> set (ToRemove s3) \<longleftrightarrow> I \<in> set (ToRemove s2))
          else map_of (Timers s3) I = Some (fst (MutateTimer rnd live W (GamePaused W) dt T)) \<and> I \<in> set (ToRemove s3))"
      using FireLoop_self[OF keep dF _ _ loop] by blast
    show "EventsOf I E = [(I, BoundDelegate T)] \<and>
           map_of (Timers s') I =
             (if bLoop T
              then Some ((fst (MutateTimer rnd live W (GamePaused W) dt T))
                          \<lparr>Phase := ETimerPhase_Running, PhaseElapsed := 0, bNextTick := False\<rparr>)
              else None)"
      using * q2 cl(1)[of I] by (simp add: s' split: if_splits)
  }
qed

section \<open>The fire loop and the tick, for callbacks that may pause the timer\<close>


lemma same_up_to_bPaused: "\<exists>b. T = T\<lparr>bPaused := b\<rparr>"
  by (rule exI[of _ "bPaused T"]) simp






section \<open>The delegates a tick executes\<close>

lemma Executions_append [simp]: "Executions (E1 @ E2) = Executions E1 @ Executions E2"
  by (simp add: Executions_def)

lemma Executions_Nil [simp]: "Executions [] = []"
  by (simp add: Executions_def)



lemma Cleanup_more [simp]: "Subsystem.more (Cleanup s) = Subsystem.more s"
  by (simp add: Cleanup_def Let_def)



section \<open>An example state\<close>

text \<open>One timer with a start delay of one second, created on a fresh subsystem.\<close>

lemma NewTimer_example:
  "SetEnhancedTimer Binary32Round 0 (Some (7::nat)) 2 IgnoreTimeDilation None False False 1 0 0 NewSubsystem =
     (\<lparr>HandleId = 1, Owner = Some 0\<rparr>,
      \<lparr>Timers = [(1, \<lparr>TimerId = 1, Delegate = Some 7, DynamicDelegate = None, bUseDynamic = False,
                       bLoop = False, bPaused = False, bAffectedByGamePause = False,
                       bNextTick = False, Duration = 2, PhaseElapsed = 0, InitialDelay = 1,
                       Phase = ETimerPhase_InitialDelay, DilationMode = IgnoreTimeDilation,
                       DilationActor = None\<rparr>)],
       FiredThisTick = [], ToRemove = [], ToUnpause = [], NextId = 2\<rparr>)"
  by (simp add: SetEnhancedTimer_def AllocateId_def NewSubsystem_def DefaultData_def
      FRandRange_def Let_def Binary32Round_exact)

section \<open>C4: the Dilation Resolver\<close>

text \<open>
  C4. \<^verbatim>\<open>GetEffectiveDelta\<close>, called with a world as \<^verbatim>\<open>Tick\<close> calls it, is the Dilation
  Resolver of the specification: a function of the mode, the raw delta, the global scale
  and the scale of the source (absent when the pointer is null or the actor is gone).
  Ignore yields the raw delta, Global the raw delta times the global scale, BySource with
  a live source the raw delta times \<open>max \<epsilon> sourceScale\<close> (the \<open>\<epsilon>\<close> of the code is
  \<^verbatim>\<open>UE_SMALL_NUMBER\<close>; the products are float products, for every rounding), BySource
  with a dead or absent source the raw delta; so a
  BySource timer with a dead source gets the same effective deltas as an Ignore timer for
  every sequence of raw deltas.
\<close>

theorem dilation_resolver:
  "GetEffectiveDelta rnd live T rawDelta (Some W) =
     DilationResolver_spec rnd (DilationMode T) rawDelta (GlobalDilation W) (DilationActor_Get live T) \<and>
   (DilationMode T = IgnoreTimeDilation \<longrightarrow> GetEffectiveDelta rnd live T rawDelta (Some W) = rawDelta) \<and>
   (DilationMode T = GlobalTimeDilation \<longrightarrow>
      GetEffectiveDelta rnd live T rawDelta (Some W) = rnd (rawDelta * GlobalDilation W)) \<and>
   (DilationMode T = ActorTimeDilation \<longrightarrow>
      (\<forall>sourceScale. DilationActor_Get live T = Some sourceScale \<longrightarrow>
         GetEffectiveDelta rnd live T rawDelta (Some W) =
           rnd (rawDelta * max UE_SMALL_NUMBER sourceScale)) \<and>
      (DilationActor_Get live T = None \<longrightarrow> GetEffectiveDelta rnd live T rawDelta (Some W) = rawDelta)) \<and>
   (DilationMode T = ActorTimeDilation \<and> DilationActor_Get live T = None \<and>
    DilationMode T' = IgnoreTimeDilation \<longrightarrow>
      map (\<lambda>d. GetEffectiveDelta rnd live T d (Some W)) rawDeltas =
      map (\<lambda>d. GetEffectiveDelta rnd live' T' d (Some W')) rawDeltas)"
  by (auto simp: GetEffectiveDelta_def DilationResolver_spec_def Let_def
      split: EEnhancedTimerTimeDilationMode.splits option.splits)

theorem dilation_resolver_witness:
  "(let Dead = (DefaultData :: nat FEnhancedTimerData)
                 \<lparr>DilationMode := ActorTimeDilation, DilationActor := Some 3\<rparr>;
        Alive = (DefaultData :: nat FEnhancedTimerData)
                 \<lparr>DilationMode := ActorTimeDilation, DilationActor := Some 4\<rparr>;
        Glob = (DefaultData :: nat FEnhancedTimerData)\<lparr>DilationMode := GlobalTimeDilation\<rparr>;
        Ign = (DefaultData :: nat FEnhancedTimerData);
        live = (\<lambda>a. if a = 4 then Some (1 / 4) else None);
        W = \<lparr>GamePaused = False, GlobalDilation = 1 / 2\<rparr>
    in DilationActor_Get live Dead = None \<and> DilationActor_Get live Alive = Some (1 / 4) \<and>
       GetEffectiveDelta Binary32Round live Ign 2 (Some W) = 2 \<and>
       GetEffectiveDelta Binary32Round live Glob 2 (Some W) = 1 \<and>
       GetEffectiveDelta Binary32Round live Alive 2 (Some W) = 1 / 2 \<and>
       GetEffectiveDelta Binary32Round live Dead 2 (Some W) = 2 \<and>
       map (\<lambda>d. GetEffectiveDelta Binary32Round live Dead d (Some W)) [1, 2, 3] =
       map (\<lambda>d. GetEffectiveDelta Binary32Round live Ign d (Some W)) [1, 2, 3])"
  using dilation_resolver
    [of Binary32Round "\<lambda>a. if a = 4 then Some (1 / 4) else None"
        "(DefaultData :: nat FEnhancedTimerData)\<lparr>DilationMode := ActorTimeDilation, DilationActor := Some 3\<rparr>"
        2 "\<lparr>GamePaused = False, GlobalDilation = 1 / 2\<rparr>"
        "(DefaultData :: nat FEnhancedTimerData)" "[1, 2, 3]"
        "\<lambda>a. if a = 4 then Some (1 / 4) else None" "\<lparr>GamePaused = False, GlobalDilation = 1 / 2\<rparr>"]
  by (simp add: DefaultData_def GetEffectiveDelta_def DilationActor_Get_def UE_SMALL_NUMBER_def
      Let_def Binary32Round_exact)

section \<open>C7: time left and elapsed time of a live timer\<close>

text \<open>
  C7. For an id present in the store, \<^verbatim>\<open>GetTimerTimeLeft\<close> returns
  \<open>max 0 (InitialDelay - PhaseElapsed)\<close> when the record is in the initial-delay phase and
  \<open>max 0 (Duration - PhaseElapsed)\<close> otherwise (the difference is a float subtraction, for
  every rounding), and \<^verbatim>\<open>GetTimerElapsedTime\<close> returns the record's \<open>PhaseElapsed\<close>; the
  handle's \<^verbatim>\<open>GetTimeLeft\<close> and \<^verbatim>\<open>GetElapsedTime\<close> return the same values when the handle's
  owner is this subsystem.
\<close>

theorem time_left_and_elapsed_of_present_timer:
  "map_of (Timers s) (HandleId H) = Some T \<Longrightarrow>
     GetTimerTimeLeft rnd s H =
       (if Phase T = ETimerPhase_InitialDelay
        then max 0 (rnd (InitialDelay T - PhaseElapsed T))
        else max 0 (rnd (Duration T - PhaseElapsed T))) \<and>
     GetTimerElapsedTime s H = PhaseElapsed T \<and>
     (Owner_Get objs H = Some s \<longrightarrow>
        Handle_GetTimeLeft rnd objs H =
          (if Phase T = ETimerPhase_InitialDelay
           then max 0 (rnd (InitialDelay T - PhaseElapsed T))
           else max 0 (rnd (Duration T - PhaseElapsed T))) \<and>
        Handle_GetElapsedTime objs H = PhaseElapsed T)"
  by (simp add: GetTimerTimeLeft_def GetTimerElapsedTime_def GetData_def
      Handle_GetTimeLeft_def Handle_GetElapsedTime_def)

theorem time_left_and_elapsed_of_present_timer_witness:
  "(let (H, s) = SetEnhancedTimer Binary32Round 0 (Some (7::nat)) 2 IgnoreTimeDilation None False False 1 0 0
                   NewSubsystem;
        objs = [0 \<mapsto> s]
    in map_of (Timers s) (HandleId H) \<noteq> None \<and>
       GetTimerTimeLeft Binary32Round s H = 1 \<and> GetTimerElapsedTime s H = 0 \<and>
       Owner_Get objs H = Some s \<and>
       Handle_GetTimeLeft Binary32Round objs H = 1 \<and> Handle_GetElapsedTime objs H = 0)"
  using time_left_and_elapsed_of_present_timer
    [of "snd (SetEnhancedTimer Binary32Round 0 (Some (7::nat)) 2 IgnoreTimeDilation None False False 1 0 0 NewSubsystem)"
        "\<lparr>HandleId = 1, Owner = Some 0\<rparr>"
        "the (map_of (Timers (snd (SetEnhancedTimer Binary32Round 0 (Some (7::nat)) 2 IgnoreTimeDilation None False False 1 0 0 NewSubsystem))) 1)"
        Binary32Round
        "[0 \<mapsto> snd (SetEnhancedTimer Binary32Round 0 (Some (7::nat)) 2 IgnoreTimeDilation None False False 1 0 0 NewSubsystem)]"]
  by (simp add: NewTimer_example Owner_Get_def Let_def Binary32Round_exact)

section \<open>C8: queries on a missing timer or a dead owner\<close>

text \<open>
  C8. Every query applied to an id that is absent from the store returns its sentinel:
  \<open>False\<close> for \<^verbatim>\<open>IsTimerValid\<close>, \<^verbatim>\<open>IsTimerPaused\<close>, \<^verbatim>\<open>IsTimerLooping\<close> and
  \<^verbatim>\<open>IsTimerAffectedByGamePause\<close>, \<open>-1\<close> for \<^verbatim>\<open>GetTimerDuration\<close>, \<^verbatim>\<open>GetTimerTimeLeft\<close> and
  \<^verbatim>\<open>GetTimerElapsedTime\<close>, and \<^verbatim>\<open>IgnoreTimeDilation\<close> for \<^verbatim>\<open>GetTimerTimeDilationMode\<close>. The
  queries of a handle return the same sentinels when the owner is gone or the id is
  absent from the owner's store. The queries are total functions of the store (nothing
  is raised) and, being \<^verbatim>\<open>const\<close>, have no successor store: the store is as it was.
\<close>

theorem queries_return_sentinels:
  "(map_of (Timers s) (HandleId H) = None \<longrightarrow>
      \<not> IsTimerValid s H \<and> \<not> IsTimerPaused s H \<and> \<not> IsTimerLooping s H \<and>
      GetTimerDuration s H = - 1 \<and> GetTimerTimeLeft rnd s H = - 1 \<and>
      GetTimerElapsedTime s H = - 1 \<and> \<not> IsTimerAffectedByGamePause s H \<and>
      GetTimerTimeDilationMode s H = IgnoreTimeDilation) \<and>
   (Owner_Get objs H = None \<or>
    (\<exists>s. Owner_Get objs H = Some s \<and> map_of (Timers s) (HandleId H) = None) \<longrightarrow>
      \<not> Handle_IsValid objs H \<and> \<not> Handle_IsPaused objs H \<and> \<not> Handle_IsLooping objs H \<and>
      Handle_GetDuration objs H = - 1 \<and> Handle_GetTimeLeft rnd objs H = - 1 \<and>
      Handle_GetElapsedTime objs H = - 1 \<and> \<not> Handle_IsAffectedByGamePause objs H \<and>
      Handle_GetTimeDilationMode objs H = IgnoreTimeDilation)"
  by (auto simp: IsTimerValid_def IsTimerPaused_def IsTimerLooping_def GetTimerDuration_def
      GetTimerTimeLeft_def GetTimerElapsedTime_def IsTimerAffectedByGamePause_def
      GetTimerTimeDilationMode_def GetData_def Handle_IsValid_def Handle_IsPaused_def
      Handle_IsLooping_def Handle_GetDuration_def Handle_GetTimeLeft_def
      Handle_GetElapsedTime_def Handle_IsAffectedByGamePause_def Handle_GetTimeDilationMode_def)

theorem queries_return_sentinels_witness:
  "(let H = \<lparr>HandleId = 5, Owner = Some 0\<rparr>;
        s = snd (SetEnhancedTimer Binary32Round 0 (Some (7::nat)) 2 IgnoreTimeDilation None False False 1 0 0
                   NewSubsystem)
    in map_of (Timers s) (HandleId H) = None \<and>
       \<not> IsTimerValid s H \<and> GetTimerDuration s H = - 1 \<and> GetTimerTimeLeft Binary32Round s H = - 1 \<and>
       GetTimerTimeDilationMode s H = IgnoreTimeDilation \<and>
       Owner_Get (Map.empty :: nat \<Rightarrow> nat Subsystem option) H = None \<and>
       \<not> Handle_IsValid (Map.empty :: nat \<Rightarrow> nat Subsystem option) H \<and>
       Handle_GetElapsedTime (Map.empty :: nat \<Rightarrow> nat Subsystem option) H = - 1 \<and>
       Owner_Get [0 \<mapsto> s] H = Some s \<and>
       \<not> Handle_IsValid [0 \<mapsto> s] H \<and>
       Handle_GetTimeLeft Binary32Round [0 \<mapsto> s] H = - 1)"
  using queries_return_sentinels
    [of "snd (SetEnhancedTimer Binary32Round 0 (Some (7::nat)) 2 IgnoreTimeDilation None False False 1 0 0 NewSubsystem)"
        "\<lparr>HandleId = 5, Owner = Some 0\<rparr>" Binary32Round
        "Map.empty :: nat \<Rightarrow> nat Subsystem option"]
    queries_return_sentinels
    [of "snd (SetEnhancedTimer Binary32Round 0 (Some (7::nat)) 2 IgnoreTimeDilation None False False 1 0 0 NewSubsystem)"
        "\<lparr>HandleId = 5, Owner = Some 0\<rparr>" Binary32Round
        "[0 \<mapsto> snd (SetEnhancedTimer Binary32Round 0 (Some (7::nat)) 2 IgnoreTimeDilation None False False 1 0 0 NewSubsystem)]"]
  by (simp add: NewTimer_example Owner_Get_def Let_def)

section \<open>Creation\<close>

lemma AllocateId_nonzero:
  "NextId s \<noteq> 0 \<Longrightarrow> fst (AllocateId s) \<noteq> 0 \<and> NextId (snd (AllocateId s)) \<noteq> 0"
  by (simp add: AllocateId_def Let_def)

lemma map_of_update_same: "map_of (AList.update k v al) k = Some v"
  by (simp add: update_conv')

section \<open>C9: the stored initial delay\<close>

lemma FRandRange_upper:
  assumes "mono rnd" and "0 \<le> v" and "0 \<le> u" and "u \<le> 1"
    and "rnd v = v" and "rnd (2 * v) = 2 * v"
  shows "FRandRange rnd (- v) v u \<le> v"
proof -
  have "2 * v * u \<le> 2 * v" using assms(2,3,4) by (simp add: mult_left_le)
  with assms(1) have "rnd (2 * v * u) \<le> rnd (2 * v)" by (rule monoD)
  with assms(6) have "- v + rnd (2 * v * u) \<le> v" by simp
  with assms(1) have "rnd (- v + rnd (2 * v * u)) \<le> rnd v" by (rule monoD)
  with assms(5,6) show ?thesis by (simp add: FRandRange_def)
qed

lemma stored_delay_bounds:
  assumes "0 \<le> Delay" and "0 \<le> Variation" and "0 \<le> FRand" and "FRand \<le> 1"
    and "mono rnd" and "rnd Delay = Delay" and "rnd Variation = Variation"
    and "rnd (2 * Variation) = 2 * Variation"
  shows "Delay \<le> max 0 (rnd (Delay + max 0 (FRandRange rnd (- Variation) Variation FRand)))"
    and "max 0 (rnd (Delay + max 0 (FRandRange rnd (- Variation) Variation FRand))) \<le>
           rnd (Delay + Variation)"
proof -
  define B where "B = max 0 (FRandRange rnd (- Variation) Variation FRand)"
  have b: "0 \<le> B" "B \<le> Variation"
    using FRandRange_upper[OF assms(5,2,3,4,7,8)] assms(2) by (simp_all add: B_def)
  from b(1) have "Delay \<le> Delay + B" by simp
  with assms(5) have "rnd Delay \<le> rnd (Delay + B)" by (rule monoD)
  with assms(6) have lo: "Delay \<le> rnd (Delay + B)" by simp
  from b(2) have "Delay + B \<le> Delay + Variation" by simp
  with assms(5) have hi: "rnd (Delay + B) \<le> rnd (Delay + Variation)" by (rule monoD)
  from lo assms(1) have "max 0 (rnd (Delay + B)) = rnd (Delay + B)" by simp
  with lo hi show "Delay \<le> max 0 (rnd (Delay + max 0 (FRandRange rnd (- Variation) Variation FRand)))"
    and "max 0 (rnd (Delay + max 0 (FRandRange rnd (- Variation) Variation FRand))) \<le>
           rnd (Delay + Variation)"
    by (simp_all add: B_def)
qed

text \<open>
  C9, as the code has it. A creation call (\<^verbatim>\<open>SetEnhancedTimer\<close> or \<^verbatim>\<open>SetEnhancedTimer_BP\<close>)
  stores the record under the id of the handle it returns. When the base delay or the
  variation is positive, the stored \<open>InitialDelay\<close> is \<open>max 0 (baseDelay + max 0 r)\<close>, where
  \<open>r\<close> is the number \<^verbatim>\<open>FRandRange(-variation, variation)\<close> computes from the sample \<^verbatim>\<open>FRand()\<close>
  and both that computation and the sum \<open>baseDelay + max 0 r\<close> are in float arithmetic;
  otherwise nothing is drawn and the stored \<open>InitialDelay\<close> is 0. When the stored
  \<open>InitialDelay\<close> is 0 the record starts in the running phase. For a base delay and a
  variation that are not negative and a sample between 0 and 1, the stored \<open>InitialDelay\<close>
  is never below the base delay and never above the float sum of the base delay and the
  variation, for every rounding that is monotone and leaves the base delay, the
  variation and twice the variation as they are (they are floats). With exact arithmetic
  (\<open>rnd = (\<lambda>x. x)\<close>) these are the bounds \<open>baseDelay\<close> and \<open>baseDelay + variation\<close>. How the
  sample is distributed is not part of the model.
\<close>

theorem stored_initial_delay:
  "(case SetEnhancedTimer rnd self InDelegate InDuration Mode Actor Affected Loop Delay Variation
           FRand s
    of (H, s') \<Rightarrow>
      \<exists>T. map_of (Timers s') (HandleId H) = Some T \<and>
          InitialDelay T =
            (if 0 < Delay \<or> 0 < Variation
             then max 0 (rnd (Delay + max 0 (FRandRange rnd (- Variation) Variation FRand)))
             else 0) \<and>
          (InitialDelay T = 0 \<longrightarrow> Phase T = ETimerPhase_Running) \<and>
          (0 \<le> Delay \<and> 0 \<le> Variation \<and> 0 \<le> FRand \<and> FRand \<le> 1 \<and> mono rnd \<and>
           rnd Delay = Delay \<and> rnd Variation = Variation \<and> rnd (2 * Variation) = 2 * Variation
           \<longrightarrow> Delay \<le> InitialDelay T \<and> InitialDelay T \<le> rnd (Delay + Variation))) \<and>
   (case SetEnhancedTimer_BP rnd self Event InDuration Mode Actor Affected Loop Delay Variation
           FRand s
    of (H, s') \<Rightarrow>
      \<exists>T. map_of (Timers s') (HandleId H) = Some T \<and>
          InitialDelay T =
            (if 0 < Delay \<or> 0 < Variation
             then max 0 (rnd (Delay + max 0 (FRandRange rnd (- Variation) Variation FRand)))
             else 0) \<and>
          (InitialDelay T = 0 \<longrightarrow> Phase T = ETimerPhase_Running) \<and>
          (0 \<le> Delay \<and> 0 \<le> Variation \<and> 0 \<le> FRand \<and> FRand \<le> 1 \<and> mono rnd \<and>
           rnd Delay = Delay \<and> rnd Variation = Variation \<and> rnd (2 * Variation) = 2 * Variation
           \<longrightarrow> Delay \<le> InitialDelay T \<and> InitialDelay T \<le> rnd (Delay + Variation)))"
proof (cases "0 < Delay \<or> 0 < Variation")
  case True
  define D where "D = max 0 (rnd (Delay + max 0 (FRandRange rnd (- Variation) Variation FRand)))"
  have bounds: "Delay \<le> D \<and> D \<le> rnd (Delay + Variation)"
    if "0 \<le> Delay \<and> 0 \<le> Variation \<and> 0 \<le> FRand \<and> FRand \<le> 1 \<and> mono rnd \<and>
        rnd Delay = Delay \<and> rnd Variation = Variation \<and> rnd (2 * Variation) = 2 * Variation"
    using stored_delay_bounds[of Delay Variation FRand rnd] that by (simp add: D_def)
  show ?thesis
    using True bounds
    by (simp add: SetEnhancedTimer_def SetEnhancedTimer_BP_def AllocateId_def DefaultData_def
        Let_def map_of_update_same D_def[symmetric])
next
  case False
  have "Delay = 0 \<and> rnd (0 + 0) = 0"
    if "0 \<le> Delay \<and> 0 \<le> Variation \<and> rnd Delay = Delay"
    using that False by auto
  with False show ?thesis
    by (auto simp add: SetEnhancedTimer_def SetEnhancedTimer_BP_def AllocateId_def DefaultData_def
        Let_def map_of_update_same)
qed

lemmas creation_eval =
  SetEnhancedTimer_def SetEnhancedTimer_BP_def AllocateId_def NewSubsystem_def DefaultData_def
  FRandRange_def Let_def

theorem stored_initial_delay_witness:
  "(case SetEnhancedTimer Binary32Round 0 (Some 7) 2 IgnoreTimeDilation None False False 1 (1 / 2)
           (3 / 4) (NewSubsystem :: nat Subsystem)
    of (H, s') \<Rightarrow>
      FRandRange Binary32Round (- (1 / 2)) (1 / 2) (3 / 4) = 1 / 4 \<and>
      map_option (\<lambda>T. (InitialDelay T, Phase T)) (map_of (Timers s') (HandleId H)) =
        Some (5 / 4, ETimerPhase_InitialDelay)) \<and>
   (case SetEnhancedTimer_BP Binary32Round 0 (Some 7) 2 IgnoreTimeDilation None False False 0 1
           (1 / 4) (NewSubsystem :: nat Subsystem)
    of (H, s') \<Rightarrow>
      FRandRange Binary32Round (- 1) 1 (1 / 4) = - (1 / 2) \<and>
      map_option (\<lambda>T. (InitialDelay T, Phase T)) (map_of (Timers s') (HandleId H)) =
        Some (0, ETimerPhase_Running)) \<and>
   (0::real) \<le> 1 \<and> (0::real) \<le> 1 / 2 \<and> (0::real) \<le> 3 / 4 \<and> (3 / 4 :: real) \<le> 1 \<and>
   mono (\<lambda>x :: real. x) \<and>
   (case SetEnhancedTimer (\<lambda>x. x) 0 (Some 7) 2 IgnoreTimeDilation None False False 1 (1 / 2)
           (3 / 4) (NewSubsystem :: nat Subsystem)
    of (H, s') \<Rightarrow>
      \<exists>T. map_of (Timers s') (HandleId H) = Some T \<and> 1 \<le> InitialDelay T \<and>
          InitialDelay T \<le> 1 + 1 / 2)"
  using stored_initial_delay
    [where s = "NewSubsystem :: nat Subsystem" and rnd = Binary32Round and self = 0
       and InDelegate = "Some 7" and Event = "Some 7" and InDuration = 2
       and Mode = IgnoreTimeDilation and Actor = None and Affected = False and Loop = False
       and Delay = 1 and Variation = "1 / 2" and FRand = "3 / 4"]
    stored_initial_delay
    [where s = "NewSubsystem :: nat Subsystem" and rnd = Binary32Round and self = 0
       and InDelegate = "Some 7" and Event = "Some 7" and InDuration = 2
       and Mode = IgnoreTimeDilation and Actor = None and Affected = False and Loop = False
       and Delay = 0 and Variation = 1 and FRand = "1 / 4"]
    stored_initial_delay
    [where s = "NewSubsystem :: nat Subsystem" and rnd = "\<lambda>x. x" and self = 0
       and InDelegate = "Some 7" and Event = "Some 7" and InDuration = 2
       and Mode = IgnoreTimeDilation and Actor = None and Affected = False and Loop = False
       and Delay = 1 and Variation = "1 / 2" and FRand = "3 / 4"]
  by (simp add: creation_eval Binary32Round_exact mono_def)

text \<open>
  C9, as the specification states it, fails on the code: in float arithmetic the stored
  \<open>InitialDelay\<close> can be above \<open>baseDelay + variation\<close>. With a base delay of \<open>2 ^ 24\<close>, a
  variation of \<open>3.5\<close> and the sample \<open>15 / 16\<close>, the draw is \<open>3.0625\<close> and the float sum of the
  base delay and the draw is \<open>2 ^ 24 + 4\<close>. With a base delay of 1, the variation \<^verbatim>\<open>0.1f\<close> and
  the sample 1, the draw is the variation and the float sum is above the exact sum.
\<close>

theorem stored_initial_delay_above_base_plus_variation:
  "(case SetEnhancedTimer Binary32Round 0 (Some 7) 2 IgnoreTimeDilation None False False
           16777216 (7 / 2) (15 / 16) (NewSubsystem :: nat Subsystem)
    of (H, s') \<Rightarrow>
      map_option InitialDelay (map_of (Timers s') (HandleId H)) = Some 16777220) \<and>
   (16777216 + 7 / 2 :: real) < 16777220 \<and>
   (case SetEnhancedTimer Binary32Round 0 (Some 7) 2 IgnoreTimeDilation None False False
           1 (13421773 / 2 ^ 27) 1 (NewSubsystem :: nat Subsystem)
    of (H, s') \<Rightarrow>
      map_option InitialDelay (map_of (Timers s') (HandleId H)) = Some (9227469 / 2 ^ 23)) \<and>
   (1 + 13421773 / 2 ^ 27 :: real) < 9227469 / 2 ^ 23"
proof -
  have f1: "FRandRange Binary32Round (- (7 / 2)) (7 / 2) (15 / 16) = 49 / 16"
    by (simp add: FRandRange_def binary32)
  have f2: "FRandRange Binary32Round (- (13421773 / 134217728)) (13421773 / 134217728) 1 =
              13421773 / 134217728"
    by (simp add: FRandRange_def binary32)
  have d1: "Binary32Round (16777216 + max 0 (FRandRange Binary32Round (- (7 / 2)) (7 / 2) (15 / 16))) =
              16777220"
    unfolding f1 by (simp add: binary32)
  have d2: "Binary32Round (1 + max 0 (FRandRange Binary32Round (- (13421773 / 134217728))
                                         (13421773 / 134217728) 1)) =
              9227469 / 8388608"
    unfolding f2 by (simp add: binary32)
  show ?thesis
    by (simp add: SetEnhancedTimer_def AllocateId_def NewSubsystem_def DefaultData_def Let_def
        map_of_update_same d1 d2)
qed

section \<open>C10: the records the creation operations insert\<close>

text \<open>
  C10. Every record inserted by a creation operation (\<^verbatim>\<open>SetEnhancedTimer\<close>,
  \<^verbatim>\<open>SetEnhancedTimer_BP\<close>, \<^verbatim>\<open>SetEnhancedTimerExecutedInNextTick\<close> and its \<^verbatim>\<open>_BP\<close> form) has, in
  the store the call leaves, an id that is not 0 (the counter is never 0: it starts at 1
  and \<^verbatim>\<open>AllocateId\<close> skips 0), \<open>PhaseElapsed = 0\<close>, \<open>bPaused = False\<close>, the duration
  \<open>max 0\<close> of the requested one (0 for the next-tick forms, which take none), and the
  initial-delay phase exactly when its \<open>InitialDelay\<close> is positive, the running phase
  otherwise.
\<close>

theorem created_record_invariants:
  "NextId s \<noteq> 0 \<Longrightarrow>
   (case SetEnhancedTimer rnd self InDelegate InDuration Mode Actor Affected Loop Delay Variation FRand s
    of (H, s') \<Rightarrow>
      \<exists>T. map_of (Timers s') (HandleId H) = Some T \<and> TimerId T = HandleId H \<and> TimerId T \<noteq> 0 \<and>
          PhaseElapsed T = 0 \<and> \<not> bPaused T \<and> Duration T = max 0 InDuration \<and>
          (Phase T = ETimerPhase_InitialDelay \<longleftrightarrow> InitialDelay T > 0) \<and>
          (Phase T = ETimerPhase_Running \<longleftrightarrow> \<not> InitialDelay T > 0)) \<and>
   (case SetEnhancedTimer_BP rnd self Event InDuration Mode Actor Affected Loop Delay Variation FRand s
    of (H, s') \<Rightarrow>
      \<exists>T. map_of (Timers s') (HandleId H) = Some T \<and> TimerId T = HandleId H \<and> TimerId T \<noteq> 0 \<and>
          PhaseElapsed T = 0 \<and> \<not> bPaused T \<and> Duration T = max 0 InDuration \<and>
          (Phase T = ETimerPhase_InitialDelay \<longleftrightarrow> InitialDelay T > 0) \<and>
          (Phase T = ETimerPhase_Running \<longleftrightarrow> \<not> InitialDelay T > 0)) \<and>
   (case SetEnhancedTimerExecutedInNextTick self InDelegate s
    of (H, s') \<Rightarrow>
      \<exists>T. map_of (Timers s') (HandleId H) = Some T \<and> TimerId T = HandleId H \<and> TimerId T \<noteq> 0 \<and>
          PhaseElapsed T = 0 \<and> \<not> bPaused T \<and> Duration T = 0 \<and>
          (Phase T = ETimerPhase_InitialDelay \<longleftrightarrow> InitialDelay T > 0) \<and>
          (Phase T = ETimerPhase_Running \<longleftrightarrow> \<not> InitialDelay T > 0)) \<and>
   (case SetEnhancedTimerExecutedInNextTick_BP self Event s
    of (H, s') \<Rightarrow>
      \<exists>T. map_of (Timers s') (HandleId H) = Some T \<and> TimerId T = HandleId H \<and> TimerId T \<noteq> 0 \<and>
          PhaseElapsed T = 0 \<and> \<not> bPaused T \<and> Duration T = 0 \<and>
          (Phase T = ETimerPhase_InitialDelay \<longleftrightarrow> InitialDelay T > 0) \<and>
          (Phase T = ETimerPhase_Running \<longleftrightarrow> \<not> InitialDelay T > 0))"
  by (auto simp add: SetEnhancedTimer_def SetEnhancedTimer_BP_def
      SetEnhancedTimerExecutedInNextTick_def SetEnhancedTimerExecutedInNextTick_BP_def
      AllocateId_def DefaultData_def Let_def map_of_update_same)

theorem created_record_invariants_witness:
  "NextId (NewSubsystem :: nat Subsystem) \<noteq> 0 \<and>
   (case SetEnhancedTimer Binary32Round 0 (Some 7) (- 3) IgnoreTimeDilation None False True 1 0 0
           (NewSubsystem :: nat Subsystem)
    of (H, s') \<Rightarrow>
      HandleId H = 1 \<and>
      map_option (\<lambda>T. (TimerId T, PhaseElapsed T, bPaused T, Duration T, InitialDelay T, Phase T))
        (map_of (Timers s') 1) = Some (1, 0, False, 0, 1, ETimerPhase_InitialDelay)) \<and>
   (case SetEnhancedTimer_BP Binary32Round 0 (Some 7) (- 3) IgnoreTimeDilation None False True 1 0 0
           (NewSubsystem :: nat Subsystem)
    of (H, s') \<Rightarrow>
      HandleId H = 1 \<and>
      map_option (\<lambda>T. (TimerId T, PhaseElapsed T, bPaused T, Duration T, InitialDelay T, Phase T))
        (map_of (Timers s') 1) = Some (1, 0, False, 0, 1, ETimerPhase_InitialDelay)) \<and>
   (case SetEnhancedTimerExecutedInNextTick 0 (Some 7) (NewSubsystem :: nat Subsystem)
    of (H, s') \<Rightarrow>
      HandleId H = 1 \<and>
      map_option (\<lambda>T. (TimerId T, PhaseElapsed T, bPaused T, Duration T, InitialDelay T, Phase T))
        (map_of (Timers s') 1) = Some (1, 0, False, 0, 0, ETimerPhase_Running)) \<and>
   (case SetEnhancedTimerExecutedInNextTick_BP 0 (Some 7) (NewSubsystem :: nat Subsystem)
    of (H, s') \<Rightarrow>
      HandleId H = 1 \<and>
      map_option (\<lambda>T. (TimerId T, PhaseElapsed T, bPaused T, Duration T, InitialDelay T, Phase T))
        (map_of (Timers s') 1) = Some (1, 0, False, 0, 0, ETimerPhase_Running))"
  using created_record_invariants
    [where s = "NewSubsystem :: nat Subsystem" and rnd = Binary32Round and self = 0
       and InDelegate = "Some 7"
       and Event = "Some 7" and InDuration = "- 3" and Mode = IgnoreTimeDilation
       and Actor = None and Affected = False and Loop = True and Delay = 1 and Variation = 0
       and FRand = 0]
  by (simp add: SetEnhancedTimer_def SetEnhancedTimer_BP_def
      SetEnhancedTimerExecutedInNextTick_def SetEnhancedTimerExecutedInNextTick_BP_def
      AllocateId_def NewSubsystem_def DefaultData_def FRandRange_def Let_def
      Binary32Round_exact)

section \<open>C6: the id generator\<close>

lemma AllocateId_eq: "AllocateId s = (NextId s, s\<lparr>NextId := NextIdAfter (NextId s)\<rparr>)"
  by (simp add: AllocateId_def NextIdAfter_def Let_def)

lemma NextIdAfter_nonzero: "NextIdAfter x \<noteq> 0"
  by (simp add: NextIdAfter_def)

lemma RunLifecycle_nonzero:
  "NextId s \<noteq> 0 \<Longrightarrow>
     0 \<notin> set (fst (RunLifecycle Calls s)) \<and> NextId (snd (RunLifecycle Calls s)) \<noteq> 0"
proof (induction Calls arbitrary: s)
  case Nil
  then show ?case by simp
next
  case (Cons c Calls)
  show ?case
  proof (cases c)
    case CallAllocateId
    have "NextId (s\<lparr>NextId := NextIdAfter (NextId s)\<rparr>) \<noteq> 0"
      by (simp add: NextIdAfter_nonzero)
    from Cons.IH[OF this] Cons.prems show ?thesis
      by (simp add: CallAllocateId AllocateId_eq case_prod_beta)
  next
    case CallDeinitialize
    have "NextId (Deinitialize s) \<noteq> 0" by (simp add: Deinitialize_def)
    from Cons.IH[OF this] show ?thesis by (simp add: CallDeinitialize)
  next
    case CallInitialize
    from Cons.IH[of "Initialize s"] Cons.prems show ?thesis
      by (simp add: CallInitialize Initialize_def)
  qed
qed

lemma unat_NextIdAfter:
  fixes x :: uint64
  assumes "x \<noteq> 0"
  shows "unat (NextIdAfter x) = (if unat x = 2 ^ 64 - 1 then 1 else unat x + 1)"
proof (cases "x + 1 = 0")
  case True
  then have "x = - 1" by (rule max_word_wrap)
  then have "unat x = 2 ^ 64 - 1" by (simp add: unsigned_minus_1_eq_mask mask_eq_exp_minus_1)
  with True show ?thesis by (simp add: NextIdAfter_def)
next
  case False
  from unat_minus_one[OF False] have "unat x = unat (x + 1) - 1" by simp
  moreover from False have "unat (x + 1) \<noteq> 0" by (simp add: unat_eq_0)
  ultimately have suc: "unat (x + 1) = unat x + 1" by simp
  have "unat (x + 1) < 2 ^ 64" using unsigned_less[of "x + 1"] by simp
  with suc have "unat x \<noteq> 2 ^ 64 - 1" by simp
  with suc False show ?thesis by (simp add: NextIdAfter_def)
qed

lemma unat_funpow_NextIdAfter:
  fixes x :: uint64
  assumes "x \<noteq> 0"
  shows "(NextIdAfter ^^ k) x \<noteq> 0 \<and>
         unat ((NextIdAfter ^^ k) x) = (unat x - 1 + k) mod (2 ^ 64 - 1) + 1"
proof (induction k)
  case 0
  from assms have "unat x \<noteq> 0" by (simp add: unat_eq_0)
  moreover have "unat x < 2 ^ 64" using unsigned_less[of x] by simp
  ultimately have "(unat x - 1) mod (2 ^ 64 - 1) = unat x - 1" by simp
  with assms \<open>unat x \<noteq> 0\<close> show ?case by simp
next
  case (Suc k)
  define y where "y = (NextIdAfter ^^ k) x"
  define m where "m = (unat x - 1 + k) mod (2 ^ 64 - 1)"
  from Suc have y: "y \<noteq> 0" "unat y = m + 1" by (simp_all add: y_def m_def)
  have mlt: "m < 2 ^ 64 - 1" by (simp add: m_def)
  have step: "(unat x - 1 + Suc k) mod (2 ^ 64 - 1) = (if Suc m = 2 ^ 64 - 1 then 0 else Suc m)"
    unfolding m_def using mod_Suc[of "unat x - 1 + k" "2 ^ 64 - 1"] by simp
  have "unat (NextIdAfter y) = (unat x - 1 + Suc k) mod (2 ^ 64 - 1) + 1"
    using unat_NextIdAfter[OF y(1)] y(2) mlt step by (simp split: if_splits)
  then show ?case by (simp add: y_def NextIdAfter_nonzero)
qed

lemma mod_add_cancel_small:
  fixes a p q M :: nat
  assumes "p \<le> q" and "q < M" and "(a + p) mod M = (a + q) mod M"
  shows "p = q"
proof -
  have le: "a + p \<le> a + q" using assms(1) by simp
  from assms(3) have "(a + q) mod M = (a + p) mod M" by simp
  then have "M dvd (a + q) - (a + p)" using mod_eq_dvd_iff_nat[OF le] by blast
  then have "M dvd q - p" by simp
  moreover from assms have "q - p < M" by simp
  ultimately have "q - p = 0" by (meson dvd_imp_le not_less zero_less_iff_neq_zero)
  with assms(1) show ?thesis by simp
qed

lemma inj_on_funpow_NextIdAfter:
  fixes x :: uint64
  assumes "x \<noteq> 0" and "n \<le> 2 ^ 64 - 1"
  shows "inj_on (\<lambda>k. (NextIdAfter ^^ k) x) {0..<n}"
proof (rule inj_onI)
  fix i j assume ij: "i \<in> {0..<n}" "j \<in> {0..<n}"
    and eq: "(NextIdAfter ^^ i) x = (NextIdAfter ^^ j) x"
  let ?M = "2 ^ 64 - 1 :: nat"
  let ?a = "unat x - 1"
  from eq unat_funpow_NextIdAfter[OF assms(1), of i] unat_funpow_NextIdAfter[OF assms(1), of j]
  have me: "(?a + i) mod ?M = (?a + j) mod ?M" by simp
  from ij assms(2) have lt: "i < ?M" "j < ?M" by simp_all
  show "i = j"
  proof (cases "i \<le> j")
    case True
    from mod_add_cancel_small[OF True lt(2) me] show ?thesis .
  next
    case False
    then have "j \<le> i" by simp
    from mod_add_cancel_small[OF this lt(1) me[symmetric]] show ?thesis by simp
  qed
qed

lemma RunLifecycle_ids:
  "CallDeinitialize \<notin> set Calls \<Longrightarrow>
     fst (RunLifecycle Calls s) =
       map (\<lambda>k. (NextIdAfter ^^ k) (NextId s))
         [0..<length (filter (\<lambda>c. c = CallAllocateId) Calls)]"
proof (induction Calls arbitrary: s)
  case Nil
  then show ?case by simp
next
  case (Cons c Calls)
  show ?case
  proof (cases c)
    case CallAllocateId
    from Cons.prems have nd: "CallDeinitialize \<notin> set Calls" by simp
    let ?n = "length (filter (\<lambda>c. c = CallAllocateId) Calls)"
    have "map (\<lambda>k. (NextIdAfter ^^ k) (NextId s)) [0..<Suc ?n] =
          NextId s # map (\<lambda>k. (NextIdAfter ^^ k) (NextIdAfter (NextId s))) [0..<?n]"
      by (simp only: upt_conv_Cons[of 0 "Suc ?n"] map_Suc_upt[symmetric])
         (simp add: funpow_swap1 comp_def)
    with Cons.IH[OF nd, of "s\<lparr>NextId := NextIdAfter (NextId s)\<rparr>"] show ?thesis
      by (simp add: CallAllocateId AllocateId_eq case_prod_beta)
  next
    case CallDeinitialize
    with Cons.prems show ?thesis by simp
  next
    case CallInitialize
    from Cons.prems have nd: "CallDeinitialize \<notin> set Calls" by simp
    from Cons.IH[OF nd, of "Initialize s"] show ?thesis
      by (simp add: CallInitialize Initialize_def)
  qed
qed

text \<open>
  C6, as the code has it. Over any sequence of \<^verbatim>\<open>AllocateId\<close>, \<^verbatim>\<open>Deinitialize\<close> and
  \<^verbatim>\<open>Initialize\<close> calls, from a counter that is not 0 (it starts at 1), the generator never
  yields 0. The ids it yields are pairwise distinct as long as no \<^verbatim>\<open>Deinitialize\<close> comes
  between them and at most \<open>2 ^ 64 - 1\<close> of them are allocated: \<^verbatim>\<open>Deinitialize\<close> sets the
  counter back to 1, and the counter wraps from \<open>2 ^ 64 - 1\<close> to 1.
\<close>

theorem ids_nonzero_and_distinct_within_a_session:
  "NextId s \<noteq> 0 \<Longrightarrow>
     0 \<notin> set (fst (RunLifecycle Calls s)) \<and>
     (CallDeinitialize \<notin> set Calls \<and>
      length (filter (\<lambda>c. c = CallAllocateId) Calls) \<le> 2 ^ 64 - 1 \<longrightarrow>
        distinct (fst (RunLifecycle Calls s)))"
proof (intro conjI impI)
  assume nz: "NextId s \<noteq> 0"
  from RunLifecycle_nonzero[OF nz] show "0 \<notin> set (fst (RunLifecycle Calls s))" by simp
  assume h: "CallDeinitialize \<notin> set Calls \<and>
      length (filter (\<lambda>c. c = CallAllocateId) Calls) \<le> 2 ^ 64 - 1"
  from inj_on_funpow_NextIdAfter[OF nz, of "length (filter (\<lambda>c. c = CallAllocateId) Calls)"] h
  show "distinct (fst (RunLifecycle Calls s))"
    by (simp add: RunLifecycle_ids distinct_map)
qed

theorem ids_nonzero_and_distinct_within_a_session_witness:
  "NextId (NewSubsystem :: nat Subsystem) \<noteq> 0 \<and>
   CallDeinitialize \<notin> set [CallAllocateId, CallInitialize, CallAllocateId, CallAllocateId] \<and>
   length (filter (\<lambda>c. c = CallAllocateId)
             [CallAllocateId, CallInitialize, CallAllocateId, CallAllocateId]) \<le> 2 ^ 64 - 1 \<and>
   fst (RunLifecycle [CallAllocateId, CallInitialize, CallAllocateId, CallAllocateId]
          (NewSubsystem :: nat Subsystem)) = [1, 2, 3] \<and>
   0 \<notin> set (fst (RunLifecycle [CallAllocateId, CallInitialize, CallAllocateId, CallAllocateId]
                   (NewSubsystem :: nat Subsystem))) \<and>
   distinct (fst (RunLifecycle [CallAllocateId, CallInitialize, CallAllocateId, CallAllocateId]
                   (NewSubsystem :: nat Subsystem)))"
  using ids_nonzero_and_distinct_within_a_session
    [of "NewSubsystem :: nat Subsystem"
        "[CallAllocateId, CallInitialize, CallAllocateId, CallAllocateId]"]
  by (simp add: AllocateId_def Initialize_def NewSubsystem_def Let_def)

text \<open>
  C6, as the specification states it, fails on the code: ids are not pairwise distinct
  across a \<^verbatim>\<open>Deinitialize\<close>/\<^verbatim>\<open>Initialize\<close> cycle. The first id after the cycle is 1 again.
\<close>

theorem ids_repeat_after_deinitialize:
  "\<not> distinct (fst (RunLifecycle [CallAllocateId, CallDeinitialize, CallInitialize, CallAllocateId]
                     (NewSubsystem :: nat Subsystem)))"
  by (simp add: AllocateId_def Deinitialize_def Initialize_def NewSubsystem_def Let_def)

text \<open>The bound \<open>2 ^ 64 - 1\<close> is sharp: the \<open>2 ^ 64\<close>-th id of a session is its first again.\<close>

lemma id_reused_after_wrap:
  "(NextIdAfter ^^ (2 ^ 64 - 1)) 1 = 1"
proof -
  have "unat ((NextIdAfter ^^ (2 ^ 64 - 1)) (1 :: uint64)) = 1"
    using unat_funpow_NextIdAfter[of 1 "2 ^ 64 - 1"] by simp
  then show ?thesis by (metis unat_1 word_unat_eq_iff)
qed


lemma RunLifecycle_replicate_ids:
  "fst (RunLifecycle (replicate n CallAllocateId) s) =
     map (\<lambda>k. (NextIdAfter ^^ k) (NextId s)) [0..<n]"
  using RunLifecycle_ids[of "replicate n CallAllocateId" s] by simp

lemma not_distinct_map_upt:
  assumes "i < j" and "j < n" and "f i = f j"
  shows "\<not> distinct (map f [0..<n])"
proof
  assume "distinct (map f [0..<n])"
  then have "inj_on f {0..<n}" by (simp add: distinct_map)
  from inj_onD[OF this assms(3)] assms(1,2) show False by simp
qed

lemma ids_repeat_after_wrap:
  "\<not> distinct (fst (RunLifecycle (replicate (2 ^ 64) CallAllocateId) (NewSubsystem :: nat Subsystem)))"
proof -
  have n1: "NextId (NewSubsystem :: nat Subsystem) = 1" by (simp add: NewSubsystem_def)
  have a: "(0::nat) < 2 ^ 64 - 1" and b: "(2 ^ 64 - 1 :: nat) < 2 ^ 64" by simp_all
  have c: "(NextIdAfter ^^ 0) (1 :: uint64) = (NextIdAfter ^^ (2 ^ 64 - 1)) 1"
    by (simp only: id_reused_after_wrap funpow_0)
  show ?thesis
    unfolding RunLifecycle_replicate_ids n1
    by (rule not_distinct_map_upt[OF a b c])
qed

section \<open>C2: a phase transition and a firing exclude each other within a tick\<close>

lemma MutateTimer_transit:
  assumes "\<not> bPaused T" and "\<not> (p \<and> \<not> bAffectedByGamePause T)" and "\<not> bNextTick T"
    and "Phase T = ETimerPhase_InitialDelay"
    and "InitialDelay T \<le>
              rnd (rnd (PhaseElapsed T + GetEffectiveDelta rnd live T dt (Some W)) + KINDA_SMALL_NUMBER)"
  shows "MutateTimer rnd live W p dt T = (T\<lparr>PhaseElapsed := 0, Phase := ETimerPhase_Running\<rparr>, False)"
  using assms
  by (auto simp: MutateTimer_def TryTransitFromDelay_def Advance_def Let_def GetEffectiveDelta_def)

lemma MutateTimer_fire:
  assumes "snd (MutateTimer rnd live W p dt T)"
  shows "\<not> bPaused T \<and> \<not> (p \<and> \<not> bAffectedByGamePause T) \<and> \<not> bNextTick T \<and>
         Phase T = ETimerPhase_Running \<and>
         Duration T \<le>
               rnd (rnd (PhaseElapsed T + GetEffectiveDelta rnd live T dt (Some W)) + KINDA_SMALL_NUMBER) \<and>
         fst (MutateTimer rnd live W p dt T) =
           T\<lparr>PhaseElapsed := rnd (PhaseElapsed T + GetEffectiveDelta rnd live T dt (Some W))\<rparr>"
  using assms
  by (auto simp: MutateTimer_def TryTransitFromDelay_def Advance_def Let_def ShouldFire_def
      GetEffectiveDelta_def split: if_splits)

lemma marking_passes_exclusive:
  assumes "distinct (map fst Ts)"
    and "MutablePass rnd live W (GamePaused W) dt Ts (PreMark (GamePaused W) Ts []) = (Ts', Fired)"
  shows "(\<forall>(K, T) \<in> set Ts.
            \<not> bPaused T \<and> \<not> (GamePaused W \<and> \<not> bAffectedByGamePause T) \<and> \<not> bNextTick T \<and>
            Phase T = ETimerPhase_InitialDelay \<and>
            InitialDelay T \<le>
              rnd (rnd (PhaseElapsed T + GetEffectiveDelta rnd live T dt (Some W)) + KINDA_SMALL_NUMBER)
            \<longrightarrow> map_of Ts' K = Some (T\<lparr>PhaseElapsed := 0, Phase := ETimerPhase_Running\<rparr>) \<and>
                K \<notin> set Fired) \<and>
         (\<forall>K \<in> set Fired. \<exists>T.
            map_of Ts K = Some T \<and> \<not> bPaused T \<and> \<not> (GamePaused W \<and> \<not> bAffectedByGamePause T) \<and>
            (bNextTick T \<or>
             Phase T = ETimerPhase_Running \<and>
             Duration T \<le>
               rnd (rnd (PhaseElapsed T + GetEffectiveDelta rnd live T dt (Some W)) + KINDA_SMALL_NUMBER) \<and>
             map_of Ts' K =
               Some (T\<lparr>PhaseElapsed := rnd (PhaseElapsed T + GetEffectiveDelta rnd live T dt (Some W))\<rparr>)))"
proof -
  let ?P = "\<lambda>(K :: uint64, T :: 'a FEnhancedTimerData).
     \<not> bPaused T \<and> \<not> (GamePaused W \<and> \<not> bAffectedByGamePause T) \<and> bNextTick T"
  let ?Q = "\<lambda>(K :: uint64, T :: 'a FEnhancedTimerData). snd (MutateTimer rnd live W (GamePaused W) dt T)"
  from assms(2) have Ts': "Ts' = map (\<lambda>(K, T). (K, fst (MutateTimer rnd live W (GamePaused W) dt T))) Ts"
    and Fired: "Fired = map fst (filter ?P Ts) @ map fst (filter ?Q Ts)"
    by (simp_all add: MutablePass_eq PreMark_eq)
  have inF: "\<And>K. K \<in> set Fired \<longleftrightarrow> (\<exists>T. map_of Ts K = Some T \<and> (?P (K, T) \<or> ?Q (K, T)))"
    unfolding Fired using marked_iff[OF assms(1), of _ ?P] marked_iff[OF assms(1), of _ ?Q]
    by auto
  have m: "\<And>K. map_of Ts' K = map_option (\<lambda>T. fst (MutateTimer rnd live W (GamePaused W) dt T)) (map_of Ts K)"
    by (simp add: Ts' map_of_map_values)
  show ?thesis
  proof (intro conjI ballI)
    fix x assume x: "x \<in> set Ts"
    obtain K T where KT: "x = (K, T)" by (cases x)
    with x assms(1) have mk: "map_of Ts K = Some T" by simp
    show "case x of (K, T) \<Rightarrow>
            \<not> bPaused T \<and> \<not> (GamePaused W \<and> \<not> bAffectedByGamePause T) \<and> \<not> bNextTick T \<and>
            Phase T = ETimerPhase_InitialDelay \<and>
            InitialDelay T \<le>
              rnd (rnd (PhaseElapsed T + GetEffectiveDelta rnd live T dt (Some W)) + KINDA_SMALL_NUMBER)
            \<longrightarrow> map_of Ts' K = Some (T\<lparr>PhaseElapsed := 0, Phase := ETimerPhase_Running\<rparr>) \<and>
                K \<notin> set Fired"
    proof (simp only: KT prod.case, intro impI)
      assume h: "\<not> bPaused T \<and> \<not> (GamePaused W \<and> \<not> bAffectedByGamePause T) \<and> \<not> bNextTick T \<and>
            Phase T = ETimerPhase_InitialDelay \<and>
            InitialDelay T \<le>
              rnd (rnd (PhaseElapsed T + GetEffectiveDelta rnd live T dt (Some W)) + KINDA_SMALL_NUMBER)"
      then have mt: "MutateTimer rnd live W (GamePaused W) dt T =
                      (T\<lparr>PhaseElapsed := 0, Phase := ETimerPhase_Running\<rparr>, False)"
        by (intro MutateTimer_transit) simp_all
      from mt mk m[of K] have "map_of Ts' K = Some (T\<lparr>PhaseElapsed := 0, Phase := ETimerPhase_Running\<rparr>)"
        by simp
      moreover from inF[of K] mk mt h have "K \<notin> set Fired" by simp
      ultimately show "map_of Ts' K = Some (T\<lparr>PhaseElapsed := 0, Phase := ETimerPhase_Running\<rparr>) \<and>
                K \<notin> set Fired" by simp
    qed
  next
    fix K assume "K \<in> set Fired"
    with inF[of K] obtain T where mk: "map_of Ts K = Some T" and pq: "?P (K, T) \<or> ?Q (K, T)" by blast
    from pq show "\<exists>T.
            map_of Ts K = Some T \<and> \<not> bPaused T \<and> \<not> (GamePaused W \<and> \<not> bAffectedByGamePause T) \<and>
            (bNextTick T \<or>
             Phase T = ETimerPhase_Running \<and>
             Duration T \<le>
               rnd (rnd (PhaseElapsed T + GetEffectiveDelta rnd live T dt (Some W)) + KINDA_SMALL_NUMBER) \<and>
             map_of Ts' K =
               Some (T\<lparr>PhaseElapsed := rnd (PhaseElapsed T + GetEffectiveDelta rnd live T dt (Some W))\<rparr>))"
    proof
      assume "?P (K, T)"
      with mk show ?thesis by (intro exI[of _ T]) simp
    next
      assume "?Q (K, T)"
      then have "snd (MutateTimer rnd live W (GamePaused W) dt T)" by simp
      from MutateTimer_fire[OF this] mk m[of K] show ?thesis by (intro exI[of _ T]) simp
    qed
  qed
qed

text \<open>
  C2. Let \<open>Ts'\<close> and \<open>Fired\<close> be the map and \<^verbatim>\<open>FiredThisTick\<close> as the pre-marking pass and the
  mutable pass of one tick leave them (the fire pass of that tick runs on exactly these).
  Every record the mutable pass processes (not paused, not frozen by the game pause, not
  a next-tick record) that is in the initial-delay phase and whose advanced
  \<open>PhaseElapsed\<close> reaches \<open>InitialDelay - \<epsilon>\<close>, as the code tests it (the advanced
  \<open>PhaseElapsed\<close> plus \<open>\<epsilon>\<close> is at least \<open>InitialDelay\<close>), is in the running phase with
  \<open>PhaseElapsed = 0\<close> afterwards, and its id is not due to fire in this tick. Every id that
  is due to fire belongs either to a next-tick record (marked by the pre-marking pass)
  or to a record that was in the running phase before the tick and whose advanced
  \<open>PhaseElapsed + \<epsilon>\<close> reaches its duration. Here \<open>\<epsilon>\<close> is \<^verbatim>\<open>KINDA_SMALL_NUMBER\<close>, the advanced
  \<open>PhaseElapsed\<close> is the float sum of \<open>PhaseElapsed\<close> and the effective delta, and the
  statement holds for every rounding of the float sums.
\<close>

theorem transition_and_firing_exclusive:
  assumes "distinct (map fst (Timers s))" and "FiredThisTick s = []"
    and "MutablePass rnd live W (GamePaused W) dt (Timers s)
           (PreMark (GamePaused W) (Timers s) (FiredThisTick s)) = (Ts', Fired)"
  shows "(\<forall>(K, T) \<in> set (Timers s).
            \<not> bPaused T \<and> \<not> (GamePaused W \<and> \<not> bAffectedByGamePause T) \<and> \<not> bNextTick T \<and>
            Phase T = ETimerPhase_InitialDelay \<and>
            InitialDelay T \<le>
              rnd (rnd (PhaseElapsed T + GetEffectiveDelta rnd live T dt (Some W)) + KINDA_SMALL_NUMBER)
            \<longrightarrow> map_of Ts' K = Some (T\<lparr>PhaseElapsed := 0, Phase := ETimerPhase_Running\<rparr>) \<and>
                K \<notin> set Fired) \<and>
         (\<forall>K \<in> set Fired. \<exists>T.
            map_of (Timers s) K = Some T \<and> \<not> bPaused T \<and>
            \<not> (GamePaused W \<and> \<not> bAffectedByGamePause T) \<and>
            (bNextTick T \<or>
             Phase T = ETimerPhase_Running \<and>
             Duration T \<le>
               rnd (rnd (PhaseElapsed T + GetEffectiveDelta rnd live T dt (Some W)) + KINDA_SMALL_NUMBER) \<and>
             map_of Ts' K =
               Some (T\<lparr>PhaseElapsed := rnd (PhaseElapsed T + GetEffectiveDelta rnd live T dt (Some W))\<rparr>))) \<and>
         Tick rnd invoke live (Some W) dt s =
           (case ExecuteFired invoke (s\<lparr>Timers := Ts', FiredThisTick := Fired\<rparr>) of
              (Events, s3) \<Rightarrow> (Events, Cleanup s3))"
proof -
  from assms(2,3) have mp: "MutablePass rnd live W (GamePaused W) dt (Timers s)
           (PreMark (GamePaused W) (Timers s) []) = (Ts', Fired)" by simp
  have "Tick rnd invoke live (Some W) dt s =
           (case ExecuteFired invoke (s\<lparr>Timers := Ts', FiredThisTick := Fired\<rparr>) of
              (Events, s3) \<Rightarrow> (Events, Cleanup s3))"
    using assms(3) by (simp add: Tick_def Let_def)
  with marking_passes_exclusive[OF assms(1) mp] show ?thesis by blast
qed

theorem transition_and_firing_exclusive_witness:
  "(let Delayed = (DefaultData :: nat FEnhancedTimerData)
                    \<lparr>TimerId := 1, Phase := ETimerPhase_InitialDelay, InitialDelay := 1,
                     PhaseElapsed := 1 / 2, Duration := 0\<rparr>;
        Due = (DefaultData :: nat FEnhancedTimerData)
                    \<lparr>TimerId := 2, Duration := 2, PhaseElapsed := 3 / 2\<rparr>;
        Next = (DefaultData :: nat FEnhancedTimerData)
                    \<lparr>TimerId := 3, bNextTick := True, bAffectedByGamePause := True\<rparr>;
        s = (NewSubsystem :: nat Subsystem)\<lparr>Timers := [(1, Delayed), (2, Due), (3, Next)], NextId := 4\<rparr>;
        W = \<lparr>GamePaused = False, GlobalDilation = 1\<rparr>;
        Ts' = [(1, Delayed\<lparr>PhaseElapsed := 0, Phase := ETimerPhase_Running\<rparr>),
               (2, Due\<lparr>PhaseElapsed := 2\<rparr>), (3, Next)]
    in distinct (map fst (Timers s)) \<and> FiredThisTick s = [] \<and>
       MutablePass Binary32Round (\<lambda>a. None) W (GamePaused W) (1 / 2) (Timers s)
         (PreMark (GamePaused W) (Timers s) (FiredThisTick s)) = (Ts', [3, 2]) \<and>
       map_of Ts' 1 = Some (Delayed\<lparr>PhaseElapsed := 0, Phase := ETimerPhase_Running\<rparr>) \<and>
       1 \<notin> set [3, 2 :: uint64] \<and>
       ShouldFire Binary32Round (Delayed\<lparr>PhaseElapsed := 0, Phase := ETimerPhase_Running\<rparr>) \<and>
       Tick Binary32Round (\<lambda>cb s. s) (\<lambda>a. None) (Some W) (1 / 2) s =
         ([(3, None), (2, None)],
          s\<lparr>Timers := [(1, Delayed\<lparr>PhaseElapsed := 0, Phase := ETimerPhase_Running\<rparr>)]\<rparr>))"
  using transition_and_firing_exclusive
    [of "(NewSubsystem :: nat Subsystem)
           \<lparr>Timers := [(1, (DefaultData :: nat FEnhancedTimerData)
                    \<lparr>TimerId := 1, Phase := ETimerPhase_InitialDelay, InitialDelay := 1,
                     PhaseElapsed := 1 / 2, Duration := 0\<rparr>),
                       (2, (DefaultData :: nat FEnhancedTimerData)
                    \<lparr>TimerId := 2, Duration := 2, PhaseElapsed := 3 / 2\<rparr>),
                       (3, (DefaultData :: nat FEnhancedTimerData)
                    \<lparr>TimerId := 3, bNextTick := True, bAffectedByGamePause := True\<rparr>)],
            NextId := 4\<rparr>"
        Binary32Round "\<lambda>a. None" "\<lparr>GamePaused = False, GlobalDilation = 1\<rparr>" "1 / 2"
        "[(1, (DefaultData :: nat FEnhancedTimerData)
                    \<lparr>TimerId := 1, Phase := ETimerPhase_InitialDelay, InitialDelay := 1,
                     PhaseElapsed := 0, Duration := 0\<rparr>\<lparr>Phase := ETimerPhase_Running\<rparr>),
          (2, (DefaultData :: nat FEnhancedTimerData)
                    \<lparr>TimerId := 2, Duration := 2, PhaseElapsed := 2\<rparr>),
          (3, (DefaultData :: nat FEnhancedTimerData)
                    \<lparr>TimerId := 3, bNextTick := True, bAffectedByGamePause := True\<rparr>)]"
        "[3, 2]" "\<lambda>cb s. s"]
  by (simp add: Let_def NewSubsystem_def DefaultData_def MutateTimer_def GetEffectiveDelta_def
      Advance_def TryTransitFromDelay_def ShouldFire_def Tick_def
      ExecuteFired_def FireOne_def GetData_def FindMutable_def BoundDelegate_def Cleanup_def
      Binary32Round_exact Binary32Round_tolerance KINDA_SMALL_NUMBER_pos)

section \<open>C3: the two pause mechanisms\<close>

lemma GetEffectiveDelta_GamePaused [simp]:
  "GetEffectiveDelta rnd live T dt (Some (W\<lparr>GamePaused := b\<rparr>)) = GetEffectiveDelta rnd live T dt (Some W)"
  by (simp add: GetEffectiveDelta_def split: EEnhancedTimerTimeDilationMode.splits)

lemma MutateTimer_GamePaused [simp]:
  "MutateTimer rnd live (W\<lparr>GamePaused := b\<rparr>) p dt T = MutateTimer rnd live W p dt T"
  by (simp add: MutateTimer_def)

lemma MutateTimer_immune:
  "bAffectedByGamePause T \<Longrightarrow> MutateTimer rnd live W True dt T = MutateTimer rnd live W False dt T"
  by (simp add: MutateTimer_def)

lemma MutateTimer_processed:
  "\<not> bPaused T \<Longrightarrow> \<not> (p \<and> \<not> bAffectedByGamePause T) \<Longrightarrow> \<not> bNextTick T \<Longrightarrow>
   fst (MutateTimer rnd live W p dt T) =
     snd (TryTransitFromDelay rnd (Advance rnd (GetEffectiveDelta rnd live T dt (Some W)) T))"
  by (auto simp: MutateTimer_def Let_def split: prod.splits)

lemma TimerDue_frozen:
  "bPaused T \<or> (GamePaused W \<and> \<not> bAffectedByGamePause T) \<Longrightarrow> \<not> TimerDue rnd live W dt T"
  by (auto simp: TimerDue_def MutateTimer_def)

lemma TimerDue_immune:
  "bAffectedByGamePause T \<Longrightarrow>
   TimerDue rnd live (W\<lparr>GamePaused := True\<rparr>) dt T = TimerDue rnd live (W\<lparr>GamePaused := False\<rparr>) dt T"
  by (simp add: TimerDue_def MutateTimer_immune)

lemma MutablePass_fields:
  "MutablePass rnd live W p dt Ts F = (Ts', F') \<Longrightarrow>
   list_all2 (\<lambda>(K, T0) (K', T'). K' = K \<and> T'\<lparr>Phase := Phase T0, PhaseElapsed := PhaseElapsed T0\<rparr> = T0)
     Ts Ts'"
proof -
  assume "MutablePass rnd live W p dt Ts F = (Ts', F')"
  then have Ts': "Ts' = map (\<lambda>(K, T). (K, fst (MutateTimer rnd live W p dt T))) Ts"
    by (simp add: MutablePass_eq)
  show ?thesis unfolding Ts'
    by (induction Ts) (auto simp: MutateTimer_fields)
qed

lemma Tick_frozen:
  assumes "Idle s" and "CallbacksKeep invoke I" and "map_of (Timers s) I = Some T"
    and "bPaused T \<or> (\<exists>W. World = Some W \<and> GamePaused W \<and> \<not> bAffectedByGamePause T)"
    and "Tick rnd invoke live World dt s = (E, s')"
  shows "map_of (Timers s') I = Some T \<and> EventsOf I E = []"
proof (cases World)
  case None
  with assms(3,5) show ?thesis by (simp add: Tick_def EventsOf_def)
next
  case (Some W)
  from assms(4) Some have fr: "bPaused T \<or> (GamePaused W \<and> \<not> bAffectedByGamePause T)" by auto
  from fr have "MutateTimer rnd live W (GamePaused W) dt T = (T, False)"
    by (intro MutateTimer_skip) auto
  with Tick_focus(3)[OF assms(1,2) assms(5)[unfolded Some] assms(3) TimerDue_frozen[OF fr]]
  show ?thesis by simp
qed

text \<open>
  C3. Follow the record \<open>T\<close> of the timer \<open>I\<close> through one tick, from a state between two
  ticks and with callbacks that leave this record alone.
  \<^item> If \<open>bPaused T\<close>, the tick leaves the whole record (so its phase, its \<open>PhaseElapsed\<close>
    and its presence) as it is and does not fire it, whatever \<open>bAffectedByGamePause\<close> is
    (the flag the specification calls pause-immune) and whatever the world is.
  \<^item> If it is not paused, the game is paused and \<open>bAffectedByGamePause T\<close> is false, the
    same holds.
  \<^item> If it is not paused and \<open>bAffectedByGamePause T\<close> is true, the tick does to it with
    the game paused exactly what it does with the game not paused: the mutable pass
    advances it by its effective delta (then tries the phase transition) in both.
    The sums are float sums; the statement holds for every rounding.
  \<^item> The mutable pass keeps the keys and, in every record, every field other than
    \<open>Phase\<close> and \<open>PhaseElapsed\<close>.
\<close>

theorem pause_composition:
  fixes T :: "'cb FEnhancedTimerData"
  assumes "Idle s" and "CallbacksKeep invoke I" and "map_of (Timers s) I = Some T"
  shows
   "(bPaused T \<longrightarrow>
       (case Tick rnd invoke live World dt s of (E, s') \<Rightarrow>
          map_of (Timers s') I = Some T \<and> EventsOf I E = [])) \<and>
    (\<not> bPaused T \<and> \<not> bAffectedByGamePause T \<and> GamePaused W \<longrightarrow>
       (case Tick rnd invoke live (Some W) dt s of (E, s') \<Rightarrow>
          map_of (Timers s') I = Some T \<and> EventsOf I E = [])) \<and>
    (\<not> bPaused T \<and> bAffectedByGamePause T \<longrightarrow>
       (case Tick rnd invoke live (Some (W\<lparr>GamePaused := True\<rparr>)) dt s of (E, s') \<Rightarrow>
        case Tick rnd invoke live (Some (W\<lparr>GamePaused := False\<rparr>)) dt s of (E0, s0) \<Rightarrow>
          map_of (Timers s') I = map_of (Timers s0) I \<and> EventsOf I E = EventsOf I E0) \<and>
       MutateTimer rnd live W True dt T = MutateTimer rnd live W False dt T \<and>
       (\<not> bNextTick T \<longrightarrow>
          fst (MutateTimer rnd live W True dt T) =
            snd (TryTransitFromDelay rnd (Advance rnd (GetEffectiveDelta rnd live T dt (Some W)) T)))) \<and>
    (\<forall>p (Ts :: (uint64 \<times> 'cb FEnhancedTimerData) list) F Ts' F'.
       MutablePass rnd live W p dt Ts F = (Ts', F') \<longrightarrow>
       list_all2 (\<lambda>(K, T0) (K', T'). K' = K \<and>
                    T'\<lparr>Phase := Phase T0, PhaseElapsed := PhaseElapsed T0\<rparr> = T0) Ts Ts')"
proof (intro conjI impI allI)
  assume "bPaused T"
  then show "case Tick rnd invoke live World dt s of (E, s') \<Rightarrow>
          map_of (Timers s') I = Some T \<and> EventsOf I E = []"
    using Tick_frozen[OF assms, of World rnd live dt] by (auto split: prod.splits)
next
  assume "\<not> bPaused T \<and> \<not> bAffectedByGamePause T \<and> GamePaused W"
  then show "case Tick rnd invoke live (Some W) dt s of (E, s') \<Rightarrow>
          map_of (Timers s') I = Some T \<and> EventsOf I E = []"
    using Tick_frozen[OF assms, of "Some W" rnd live dt] by (auto split: prod.splits)
next
  assume h: "\<not> bPaused T \<and> bAffectedByGamePause T"
  obtain E s' where t1: "Tick rnd invoke live (Some (W\<lparr>GamePaused := True\<rparr>)) dt s = (E, s')"
    by (cases "Tick rnd invoke live (Some (W\<lparr>GamePaused := True\<rparr>)) dt s")
  obtain E0 s0 where t0: "Tick rnd invoke live (Some (W\<lparr>GamePaused := False\<rparr>)) dt s = (E0, s0)"
    by (cases "Tick rnd invoke live (Some (W\<lparr>GamePaused := False\<rparr>)) dt s")
  have "map_of (Timers s') I = map_of (Timers s0) I \<and> EventsOf I E = EventsOf I E0"
  proof (cases "TimerDue rnd live (W\<lparr>GamePaused := False\<rparr>) dt T")
    case True
    with TimerDue_immune[of T rnd live W dt] h have d1: "TimerDue rnd live (W\<lparr>GamePaused := True\<rparr>) dt T"
      by simp
    from Tick_focus(4)[OF assms(1,2) t1 assms(3) d1] Tick_focus(4)[OF assms(1,2) t0 assms(3) True] h
    show ?thesis by (simp add: MutateTimer_immune)
  next
    case False
    with TimerDue_immune[of T rnd live W dt] h have d1: "\<not> TimerDue rnd live (W\<lparr>GamePaused := True\<rparr>) dt T"
      by simp
    from Tick_focus(3)[OF assms(1,2) t1 assms(3) d1] Tick_focus(3)[OF assms(1,2) t0 assms(3) False] h
    show ?thesis by (simp add: MutateTimer_immune)
  qed
  with t1 t0 show "case Tick rnd invoke live (Some (W\<lparr>GamePaused := True\<rparr>)) dt s of (E, s') \<Rightarrow>
        case Tick rnd invoke live (Some (W\<lparr>GamePaused := False\<rparr>)) dt s of (E0, s0) \<Rightarrow>
          map_of (Timers s') I = map_of (Timers s0) I \<and> EventsOf I E = EventsOf I E0"
    by simp
  from h show "MutateTimer rnd live W True dt T = MutateTimer rnd live W False dt T"
    by (simp add: MutateTimer_immune)
  assume "\<not> bNextTick T"
  with h show "fst (MutateTimer rnd live W True dt T) =
            snd (TryTransitFromDelay rnd (Advance rnd (GetEffectiveDelta rnd live T dt (Some W)) T))"
    by (intro MutateTimer_processed) simp_all
next
  fix p and Ts :: "(uint64 \<times> 'cb FEnhancedTimerData) list" and F Ts' F'
  assume "MutablePass rnd live W p dt Ts F = (Ts', F')"
  then show "list_all2 (\<lambda>(K, T0) (K', T'). K' = K \<and>
                    T'\<lparr>Phase := Phase T0, PhaseElapsed := PhaseElapsed T0\<rparr> = T0) Ts Ts'"
    by (rule MutablePass_fields)
qed

theorem pause_composition_witness:
  "(let Paused = (DefaultData :: nat FEnhancedTimerData)
                   \<lparr>TimerId := 1, bPaused := True, bAffectedByGamePause := True, Duration := 2\<rparr>;
        Frozen = (DefaultData :: nat FEnhancedTimerData)\<lparr>TimerId := 2, Duration := 2\<rparr>;
        Immune = (DefaultData :: nat FEnhancedTimerData)
                   \<lparr>TimerId := 3, bAffectedByGamePause := True, Duration := 2\<rparr>;
        s = (NewSubsystem :: nat Subsystem)
              \<lparr>Timers := [(1, Paused), (2, Frozen), (3, Immune)], NextId := 4\<rparr>;
        W = \<lparr>GamePaused = True, GlobalDilation = 1\<rparr>
    in Idle s \<and> CallbacksKeep (\<lambda>cb s. s :: nat Subsystem) 1 \<and>
       map_of (Timers s) 1 = Some Paused \<and> map_of (Timers s) 2 = Some Frozen \<and>
       map_of (Timers s) 3 = Some Immune \<and>
       Tick Binary32Round (\<lambda>cb s. s) (\<lambda>a. None) (Some W) (1 / 2) s =
         ([], s\<lparr>Timers := [(1, Paused), (2, Frozen), (3, Immune\<lparr>PhaseElapsed := 1 / 2\<rparr>)]\<rparr>) \<and>
       Tick Binary32Round (\<lambda>cb s. s) (\<lambda>a. None) (Some (W\<lparr>GamePaused := False\<rparr>)) (1 / 2) s =
         ([], s\<lparr>Timers := [(1, Paused), (2, Frozen\<lparr>PhaseElapsed := 1 / 2\<rparr>),
                            (3, Immune\<lparr>PhaseElapsed := 1 / 2\<rparr>)]\<rparr>))"
proof -
  define Paused where "Paused = (DefaultData :: nat FEnhancedTimerData)
                   \<lparr>TimerId := 1, bPaused := True, bAffectedByGamePause := True, Duration := 2\<rparr>"
  define Frozen where "Frozen = (DefaultData :: nat FEnhancedTimerData)\<lparr>TimerId := 2, Duration := 2\<rparr>"
  define Immune where "Immune = (DefaultData :: nat FEnhancedTimerData)
                   \<lparr>TimerId := 3, bAffectedByGamePause := True, Duration := 2\<rparr>"
  define s where "s = (NewSubsystem :: nat Subsystem)
              \<lparr>Timers := [(1, Paused), (2, Frozen), (3, Immune)], NextId := 4\<rparr>"
  define W where "W = \<lparr>GamePaused = True, GlobalDilation = 1\<rparr>"
  have idle: "Idle s" by (simp add: Idle_def s_def NewSubsystem_def)
  have keep: "\<And>I. CallbacksKeep (\<lambda>cb s. s :: nat Subsystem) I" by (simp add: CallbacksKeep_def)
  have m: "map_of (Timers s) 1 = Some Paused" "map_of (Timers s) 2 = Some Frozen"
    "map_of (Timers s) 3 = Some Immune" by (simp_all add: s_def)
  note p1 = pause_composition[OF idle keep m(1), of Binary32Round "\<lambda>a. None" "Some W" "1 / 2" W]
  note p2 = pause_composition[OF idle keep m(2), of Binary32Round "\<lambda>a. None" "Some W" "1 / 2" W]
  note p3 = pause_composition[OF idle keep m(3), of Binary32Round "\<lambda>a. None" "Some W" "1 / 2" W]
  have t1: "Tick Binary32Round (\<lambda>cb s. s) (\<lambda>a. None) (Some W) (1 / 2) s =
         ([], s\<lparr>Timers := [(1, Paused), (2, Frozen), (3, Immune\<lparr>PhaseElapsed := 1 / 2\<rparr>)]\<rparr>)"
    using p1 p2 p3
    by (simp add: s_def W_def Paused_def Frozen_def Immune_def NewSubsystem_def DefaultData_def
        Tick_def Let_def MutateTimer_def GetEffectiveDelta_def Advance_def TryTransitFromDelay_def
        ShouldFire_def ExecuteFired_def Cleanup_def Binary32Round_exact Binary32Round_tolerance)
  have t0: "Tick Binary32Round (\<lambda>cb s. s) (\<lambda>a. None) (Some (W\<lparr>GamePaused := False\<rparr>)) (1 / 2) s =
         ([], s\<lparr>Timers := [(1, Paused), (2, Frozen\<lparr>PhaseElapsed := 1 / 2\<rparr>),
                            (3, Immune\<lparr>PhaseElapsed := 1 / 2\<rparr>)]\<rparr>)"
    by (simp add: s_def W_def Paused_def Frozen_def Immune_def NewSubsystem_def DefaultData_def
        Tick_def Let_def MutateTimer_def GetEffectiveDelta_def Advance_def TryTransitFromDelay_def
        ShouldFire_def ExecuteFired_def Cleanup_def Binary32Round_exact Binary32Round_tolerance)
  show ?thesis
    using idle keep[of 1] m t1 t0
    unfolding Let_def Paused_def[symmetric] Frozen_def[symmetric] Immune_def[symmetric]
      s_def[symmetric] W_def[symmetric]
    by simp
qed

section \<open>The state between two ticks\<close>

text \<open>A fresh subsystem is idle, and the public entry points keep a state idle: they
  touch neither work queue and keep the keys of the map unique. So does a tick, by
  \<open>Tick_focus\<close>, for callbacks that do.\<close>

lemma Idle_NewSubsystem: "Idle NewSubsystem"
  by (simp add: Idle_def NewSubsystem_def)

lemma Idle_creation:
  assumes "Idle s"
  shows "Idle (snd (SetEnhancedTimer rnd self D InDuration Mode Actor Affected Loop Delay Variation
                      FRand s))"
    and "Idle (snd (SetEnhancedTimer_BP rnd self D InDuration Mode Actor Affected Loop Delay Variation
                      FRand s))"
    and "Idle (snd (SetEnhancedTimerExecutedInNextTick self D s))"
    and "Idle (snd (SetEnhancedTimerExecutedInNextTick_BP self D s))"
  using assms
  by (simp_all add: SetEnhancedTimer_def SetEnhancedTimer_BP_def
      SetEnhancedTimerExecutedInNextTick_def SetEnhancedTimerExecutedInNextTick_BP_def
      AllocateId_def Let_def Idle_def distinct_update)

lemma Idle_control:
  assumes "Idle s"
  shows "Idle (InvalidateTimer H s)" and "Idle (PauseTimer H s)" and "Idle (UnpauseTimer H s)"
    and "Idle (InvalidateAllTimers s)" and "Idle (PauseAllTimers s)"
    and "Idle (UnpauseAllTimers s)" and "Idle (Deinitialize s)" and "Idle (Initialize s)"
  using assms
  by (simp_all add: InvalidateTimer_def PauseTimer_def UnpauseTimer_def InvalidateAllTimers_def
      PauseAllTimers_def UnpauseAllTimers_def Deinitialize_def Initialize_def Idle_def
      FindMutable_def distinct_delete distinct_map_entry keys_map_values
      split: option.splits del: map_map)

section \<open>Runs of ticks, and the callbacks of the examples\<close>

lemma EventsOf_append [simp]: "EventsOf I (E1 @ E2) = EventsOf I E1 @ EventsOf I E2"
  by (simp add: EventsOf_def)

lemma EventsOf_Nil [simp]: "EventsOf I [] = []"
  by (simp add: EventsOf_def)



lemma CallbacksKeep_Inert: "CallbacksKeep InertCallbacks I"
  by (simp add: CallbacksKeep_def InertCallbacks_def)

text \<open>Callbacks that pause, unpause or invalidate another timer leave the timer \<open>I\<close>
  alone; callbacks that pause or unpause the timer \<open>I\<close> spare it.\<close>

lemma CallbacksKeep_control:
  assumes "HandleId H \<noteq> I"
  shows "CallbacksKeep (\<lambda>cb. PauseTimer H) I"
    and "CallbacksKeep (\<lambda>cb. UnpauseTimer H) I"
    and "CallbacksKeep (\<lambda>cb. InvalidateTimer H) I"
  using assms
  by (auto simp: CallbacksKeep_def PauseTimer_def UnpauseTimer_def InvalidateTimer_def
      FindMutable_def map_of_map_entry distinct_map_entry distinct_delete
      split: option.splits)

lemma CallbacksSpare_pause:
  "CallbacksSpare (\<lambda>cb. PauseTimer H) I" "CallbacksSpare (\<lambda>cb. UnpauseTimer H) I"
  by (auto simp: CallbacksSpare_def PauseTimer_def UnpauseTimer_def
      FindMutable_def map_of_map_entry distinct_map_entry
      intro: same_up_to_bPaused split: option.splits)




lemma Idle_EmptyGame: "Idle EmptyGame"
  by (simp add: Idle_def EmptyGame_def)


section \<open>C5: next-tick timers\<close>






section \<open>C1: one-shot timers fire once, looping timers are re-armed\<close>


text \<open>What \<open>DueInFrame\<close> and \<open>RecordAfter\<close> are for a frame with a world: the record is due
  when it is not paused, not frozen by the game pause, and either a next-tick record or
  in the running phase with the test \<^verbatim>\<open>PhaseElapsed + KINDA_SMALL_NUMBER >= Duration\<close> true
  of the advanced \<open>PhaseElapsed\<close>; a record in the running phase that is not a next-tick
  record is left as it is when it is paused or frozen and advanced by the effective
  delta otherwise.\<close>

lemma DueInFrame_iff:
  "DueInFrame rnd (live, Some W, dt) T \<longleftrightarrow>
     \<not> bPaused T \<and> \<not> (GamePaused W \<and> \<not> bAffectedByGamePause T) \<and>
     (bNextTick T \<or>
      Phase T = ETimerPhase_Running \<and>
      Duration T \<le>
        rnd (rnd (PhaseElapsed T + GetEffectiveDelta rnd live T dt (Some W)) + KINDA_SMALL_NUMBER))"
  by (auto simp: TimerDue_def MutateTimer_def TryTransitFromDelay_def Advance_def ShouldFire_def
      Let_def GetEffectiveDelta_def split: if_splits)

lemma RecordAfter_running:
  "Phase T = ETimerPhase_Running \<Longrightarrow> \<not> bNextTick T \<Longrightarrow>
   RecordAfter rnd [(live, Some W, dt)] T =
     (if bPaused T \<or> (GamePaused W \<and> \<not> bAffectedByGamePause T) then T
      else T\<lparr>PhaseElapsed := rnd (PhaseElapsed T + GetEffectiveDelta rnd live T dt (Some W))\<rparr>)"
  by (auto simp: MutateTimer_def TryTransitFromDelay_def Advance_def Let_def)

lemma no_world_frame:
  "\<not> DueInFrame rnd (live, None, dt) T" "RecordAfter rnd [(live, None, dt)] T = T"
  by simp_all

lemma RecordAfter_append:
  "RecordAfter rnd (Frames1 @ Frames2) T = RecordAfter rnd Frames2 (RecordAfter rnd Frames1 T)"
  by (induction Frames1 arbitrary: T) auto

lemma RecordAfter_keeps [simp]:
  "BoundDelegate (RecordAfter rnd Frames T) = BoundDelegate T"
  "bLoop (RecordAfter rnd Frames T) = bLoop T"
  by (induction Frames arbitrary: T) (auto split: option.splits)








end
